theory Spec2Isabelle
  imports Complex_Main
begin

section \<open>JavaScript strings and regular expressions\<close>

text \<open>
  A string is the list of its UTF-16 code units; the model covers the code
  units below 256, one \<^typ>\<open>char\<close> each. Numbers that the code only uses
  as integers (offsets, counts) are integers. Numbers with a fraction
  (confidences, strengths, scores) are rationals: the model computes them
  exactly, where JavaScript rounds every operation to the nearest double; NaN is
  modelled where the code can produce it.
\<close>

definition tab :: char where "tab = CHR 0x09"
definition newline :: char where "newline = CHR 0x0A"
definition vertical_tab :: char where "vertical_tab = CHR 0x0B"
definition form_feed :: char where "form_feed = CHR 0x0C"
definition carriage_return :: char where "carriage_return = CHR 0x0D"
definition no_break_space :: char where "no_break_space = CHR 0xA0"

text \<open>
  \<^verbatim>\<open>\s\<close> and the characters \<^verbatim>\<open>trim()\<close> strips: TAB, LF, VT,
  FF, CR, space and the no-break space.
\<close>

definition is_space :: "char \<Rightarrow> bool" where
  "is_space c \<longleftrightarrow>
     c \<in> set [tab, newline, vertical_tab, form_feed, carriage_return, CHR '' '', no_break_space]"

definition is_digit :: "char \<Rightarrow> bool" where
  "is_digit c \<longleftrightarrow> c \<in> set ''0123456789''"

definition upper_case :: string where
  "upper_case = ''ABCDEFGHIJKLMNOPQRSTUVWXYZ''"

definition lower_case :: string where
  "lower_case = ''abcdefghijklmnopqrstuvwxyz''"

definition is_upper :: "char \<Rightarrow> bool" where
  "is_upper c \<longleftrightarrow> c \<in> set upper_case"

definition is_lower :: "char \<Rightarrow> bool" where
  "is_lower c \<longleftrightarrow> c \<in> set lower_case"

text \<open>The line terminators: what \<^verbatim>\<open>.\<close> refuses and where \<^verbatim>\<open>^\<close> and \<^verbatim>\<open>$\<close> match under the flag \<^verbatim>\<open>m\<close>.\<close>

definition is_line_terminator :: "char \<Rightarrow> bool" where
  "is_line_terminator c \<longleftrightarrow> c = newline \<or> c = carriage_return"

text \<open>
  Equality of a character with a pattern character under the flag
  \<^verbatim>\<open>i\<close>: both are canonicalised to upper case; a character outside
  ASCII never canonicalises to an ASCII one.
\<close>

definition upcase :: "char \<Rightarrow> char" where
  "upcase c = (case map_of (zip lower_case upper_case) c of None \<Rightarrow> c | Some u \<Rightarrow> u)"

definition eq_ci :: "char \<Rightarrow> char \<Rightarrow> bool" where
  "eq_ci p c \<longleftrightarrow> upcase c = upcase p"

subsection \<open>The backtracking matcher\<close>

text \<open>
  The pattern language the program's regular expressions need: a character
  class, the empty pattern, sequence, alternative, the greedy quantifier
  \<^verbatim>\<open>{lo,hi}\<close> (no upper bound: \<open>None\<close>), a capture group, and the
  assertions \<^verbatim>\<open>^\<close> and \<^verbatim>\<open>$\<close> with the flag \<^verbatim>\<open>m\<close>
  (\<open>Bol\<close>, \<open>Eol\<close>) and without it (\<open>Bos\<close>, \<open>Eos\<close>).
\<close>

datatype regex =
    Atom "char \<Rightarrow> bool"
  | Eps
  | Seq regex regex
  | Alt regex regex
  | Rep nat "nat option" regex
  | Group nat regex
  | Bol | Eol | Bos | Eos

text \<open>
  A state of the matcher: the character before the current position (none at
  the start of the input), the input that remains, the number of characters
  that remain (kept beside the input, so that progress is a comparison of
  numbers), and the captures.
\<close>

type_synonym mstate = "char option \<times> string \<times> nat \<times> (nat \<times> string) list"

definition previous :: "mstate \<Rightarrow> char option" where
  "previous st = fst st"

definition remaining :: "mstate \<Rightarrow> string" where
  "remaining st = fst (snd st)"

definition left :: "mstate \<Rightarrow> nat" where
  "left st = fst (snd (snd st))"

definition captures :: "mstate \<Rightarrow> (nat \<times> string) list" where
  "captures st = snd (snd (snd st))"

text \<open>The state at the start of the input \<open>s\<close>.\<close>

definition start_state :: "string \<Rightarrow> mstate" where
  "start_state s = (None, s, length s, [])"

fun groups_of :: "regex \<Rightarrow> nat list" where
  "groups_of (Seq a b) = groups_of a @ groups_of b"
| "groups_of (Alt a b) = groups_of a @ groups_of b"
| "groups_of (Rep lo hi r) = groups_of r"
| "groups_of (Group n r) = n # groups_of r"
| "groups_of _ = []"

fun rsize :: "regex \<Rightarrow> nat" where
  "rsize (Seq a b) = Suc (rsize a + rsize b)"
| "rsize (Alt a b) = Suc (rsize a + rsize b)"
| "rsize (Rep lo hi r) = Suc (rsize r)"
| "rsize (Group n r) = Suc (rsize r)"
| "rsize _ = 0"

fun rep_min :: "regex \<Rightarrow> nat" where
  "rep_min (Rep lo hi r) = lo"
| "rep_min _ = 0"

text \<open>
  \<open>matches r st\<close> lists the states in which a match of \<open>r\<close> started in
  \<open>st\<close> can end, in the order in which ECMAScript's backtracking matcher
  tries them: the first state with which the rest of the pattern succeeds is
  the match. A quantifier first tries one more iteration (with the captures of
  its groups cleared), then stopping; an iteration beyond the minimum that
  consumes nothing is refused.
\<close>

function matches :: "regex \<Rightarrow> mstate \<Rightarrow> mstate list" where
  "matches (Atom p) st =
     (case remaining st of
        [] \<Rightarrow> []
      | c # cs \<Rightarrow> if p c then [(Some c, cs, left st - 1, captures st)] else [])"
| "matches Eps st = [st]"
| "matches (Seq a b) st = concat (map (matches b) (matches a st))"
| "matches (Alt a b) st = matches a st @ matches b st"
| "matches (Group n r) st =
     map (\<lambda>y. (previous y, remaining y, left y,
                 (n, take (left st - left y) (remaining st))
                   # filter (\<lambda>(k, v). k \<noteq> n) (captures y)))
         (matches r st)"
| "matches Bol st =
     (case previous st of None \<Rightarrow> [st] | Some c \<Rightarrow> if is_line_terminator c then [st] else [])"
| "matches Eol st =
     (case remaining st of [] \<Rightarrow> [st] | c # cs \<Rightarrow> if is_line_terminator c then [st] else [])"
| "matches Bos st = (case previous st of None \<Rightarrow> [st] | Some c \<Rightarrow> [])"
| "matches Eos st = (case remaining st of [] \<Rightarrow> [st] | c # cs \<Rightarrow> [])"
| "matches (Rep lo hi r) st =
     (if hi = Some 0 then [st]
      else
        (let xr = (previous st, remaining st, left st,
                   filter (\<lambda>(k, v). k \<notin> set (groups_of r)) (captures st));
             again = concat (map (\<lambda>y. if lo = 0 \<and> \<not> left y < left st
                                         then []
                                         else matches (Rep (lo - 1) (map_option (\<lambda>k. k - 1) hi) r) y)
                                 (matches r xr))
         in if lo \<noteq> 0 then again else again @ [st]))"
  by pat_completeness auto
termination
  apply (relation "(\<lambda>(r, st). rsize r) <*mlex*> (\<lambda>(r, st). rep_min r) <*mlex*>
                     measure (\<lambda>(r, st). left st)")
     apply (auto simp: wf_mlex mlex_prod_def left_def)
  done

text \<open>Pattern syntax: a literal, with and without the flag \<^verbatim>\<open>i\<close>; \<^verbatim>\<open>*\<close>, \<^verbatim>\<open>+\<close>, \<^verbatim>\<open>?\<close>; sequences and alternatives of several patterns.\<close>

fun seqs :: "regex list \<Rightarrow> regex" where
  "seqs [] = Eps"
| "seqs [r] = r"
| "seqs (r # rs) = Seq r (seqs rs)"

fun alts :: "regex list \<Rightarrow> regex" where
  "alts [] = Eps"
| "alts [r] = r"
| "alts (r # rs) = Alt r (alts rs)"

definition lit :: "string \<Rightarrow> regex" where
  "lit s = seqs (map (\<lambda>p. Atom (\<lambda>c. c = p)) s)"

definition lit_ci :: "string \<Rightarrow> regex" where
  "lit_ci s = seqs (map (\<lambda>p. Atom (eq_ci p)) s)"

definition rstar :: "regex \<Rightarrow> regex" where
  "rstar r = Rep 0 None r"

definition rplus :: "regex \<Rightarrow> regex" where
  "rplus r = Rep 1 None r"

definition ropt :: "regex \<Rightarrow> regex" where
  "ropt r = Rep 0 (Some 1) r"

definition rdot :: regex where
  "rdot = Atom (\<lambda>c. \<not> is_line_terminator c)"

definition one_of :: "string \<Rightarrow> regex" where
  "one_of s = Atom (\<lambda>c. c \<in> set s)"

definition one_of_ci :: "string \<Rightarrow> regex" where
  "one_of_ci s = Atom (\<lambda>c. \<exists>p\<in>set s. eq_ci p c)"

subsection \<open>\<^verbatim>\<open>exec\<close>, \<^verbatim>\<open>test\<close>, \<^verbatim>\<open>replace\<close>, \<^verbatim>\<open>match\<close> and \<^verbatim>\<open>split\<close>\<close>

text \<open>
  The functions that scan an input carry the character before the current
  position, the rest of the input and its length \<open>n\<close>.

  \<^verbatim>\<open>regex.exec(s)\<close> with \<^verbatim>\<open>lastIndex = 0\<close>: the first start
  position \<open>i\<close>, from the left, at which the pattern matches. The result is
  the index, the matched text and the captures.
\<close>

fun exec_from ::
  "regex \<Rightarrow> char option \<Rightarrow> string \<Rightarrow> nat \<Rightarrow> nat \<Rightarrow> (nat \<times> string \<times> (nat \<times> string) list) option" where
  "exec_from r prev s n i =
     (case matches r (prev, s, n, []) of
        y # _ \<Rightarrow> Some (i, take (n - left y) s, captures y)
      | [] \<Rightarrow> (case s of [] \<Rightarrow> None | c # cs \<Rightarrow> exec_from r (Some c) cs (n - 1) (i + 1)))"

definition exec :: "regex \<Rightarrow> string \<Rightarrow> (nat \<times> string \<times> (nat \<times> string) list) option" where
  "exec r s = exec_from r None s (length s) 0"

definition test :: "regex \<Rightarrow> string \<Rightarrow> bool" where
  "test r s \<longleftrightarrow> exec r s \<noteq> None"

text \<open>\<^verbatim>\<open>match[n]\<close>: a capture, \<open>None\<close> when the group took no part in the match.\<close>

definition capture :: "(nat \<times> string \<times> (nat \<times> string) list) \<Rightarrow> nat \<Rightarrow> string option" where
  "capture m n = map_of (snd (snd m)) n"

text \<open>
  \<^verbatim>\<open>s.replace(/r/g, rep)\<close> for a replacement text without
  \<^verbatim>\<open>$\<close>: every match, found from the end of the one before, is
  replaced; after an empty match the search moves one character on.
\<close>

function replace_from :: "regex \<Rightarrow> string \<Rightarrow> char option \<Rightarrow> string \<Rightarrow> nat \<Rightarrow> string" where
  "replace_from r rep prev s n =
     (case matches r (prev, s, n, []) of
        y # _ \<Rightarrow>
          (if left y < n
           then rep @ replace_from r rep (previous y) (remaining y) (left y)
           else (case s of [] \<Rightarrow> rep | c # cs \<Rightarrow> rep @ c # replace_from r rep (Some c) cs (n - 1)))
      | [] \<Rightarrow> (case s of [] \<Rightarrow> [] | c # cs \<Rightarrow> c # replace_from r rep (Some c) cs (n - 1)))"
  by pat_completeness auto
termination
  by (relation "(\<lambda>(r, rep, prev, s, n). n) <*mlex*> measure (\<lambda>(r, rep, prev, s, n). length s)")
    (auto simp: wf_mlex mlex_prod_def)

definition replace_all :: "regex \<Rightarrow> string \<Rightarrow> string \<Rightarrow> string" where
  "replace_all r rep s = replace_from r rep None s (length s)"

text \<open>\<^verbatim>\<open>s.match(/r/g)\<close>: the matched texts (the empty list for \<^verbatim>\<open>null\<close>).\<close>

function match_from :: "regex \<Rightarrow> char option \<Rightarrow> string \<Rightarrow> nat \<Rightarrow> string list" where
  "match_from r prev s n =
     (case matches r (prev, s, n, []) of
        y # _ \<Rightarrow>
          (if left y < n
           then take (n - left y) s # match_from r (previous y) (remaining y) (left y)
           else (case s of [] \<Rightarrow> [[]] | c # cs \<Rightarrow> [] # match_from r (Some c) cs (n - 1)))
      | [] \<Rightarrow> (case s of [] \<Rightarrow> [] | c # cs \<Rightarrow> match_from r (Some c) cs (n - 1)))"
  by pat_completeness auto
termination
  by (relation "(\<lambda>(r, prev, s, n). n) <*mlex*> measure (\<lambda>(r, prev, s, n). length s)")
    (auto simp: wf_mlex mlex_prod_def)

definition match_all :: "regex \<Rightarrow> string \<Rightarrow> string list" where
  "match_all r s = match_from r None s (length s)"

text \<open>
  \<^verbatim>\<open>s.split(/r/)\<close> for a pattern without capture groups. \<open>acc\<close> is
  the piece since the last separator, reversed. A match that is empty at the
  start of a piece is no separator.
\<close>

function split_from :: "regex \<Rightarrow> char option \<Rightarrow> string \<Rightarrow> string \<Rightarrow> nat \<Rightarrow> string list" where
  "split_from r prev acc s n =
     (case s of
        [] \<Rightarrow> [rev acc]
      | c # cs \<Rightarrow>
          (case matches r (prev, s, n, []) of
             [] \<Rightarrow> split_from r (Some c) (c # acc) cs (n - 1)
           | y # _ \<Rightarrow>
               if left y < n
               then rev acc # split_from r (previous y) [] (remaining y) (left y)
               else if acc = [] then split_from r (Some c) (c # acc) cs (n - 1)
               else rev acc # split_from r prev [] s n))"
  by pat_completeness auto
termination
  by (relation "(\<lambda>(r, prev, acc, s, n). n) <*mlex*> (\<lambda>(r, prev, acc, s, n). length s) <*mlex*>
                  measure (\<lambda>(r, prev, acc, s, n). length acc)")
    (auto simp: wf_mlex mlex_prod_def)

definition split_re :: "regex \<Rightarrow> string \<Rightarrow> string list" where
  "split_re r s =
     (if s = [] then (if matches r (start_state []) = [] then [[]] else [])
      else split_from r None [] s (length s))"

text \<open>\<^verbatim>\<open>s.split(c)\<close> for a separator of one character.\<close>

fun split_on :: "char \<Rightarrow> string \<Rightarrow> string list" where
  "split_on sep [] = [[]]"
| "split_on sep (c # cs) =
     (if c = sep then [] # split_on sep cs
      else (case split_on sep cs of
              [] \<Rightarrow> [[c]]
            | p # ps \<Rightarrow> (c # p) # ps))"

subsection \<open>Other string methods\<close>

definition trim :: "string \<Rightarrow> string" where
  "trim s = rev (dropWhile is_space (rev (dropWhile is_space s)))"

text \<open>\<^verbatim>\<open>s.indexOf(t)\<close>, with \<open>-1\<close> when \<open>t\<close> does not occur.\<close>

fun index_from :: "string \<Rightarrow> string \<Rightarrow> nat \<Rightarrow> int" where
  "index_from t [] n = (if t = [] then int n else - 1)"
| "index_from t (c # cs) n = (if take (length t) (c # cs) = t then int n else index_from t cs (Suc n))"

definition indexOf :: "string \<Rightarrow> string \<Rightarrow> int" where
  "indexOf s t = index_from t s 0"

definition str_includes :: "string \<Rightarrow> string \<Rightarrow> bool" where
  "str_includes s t \<longleftrightarrow> indexOf s t \<noteq> - 1"

text \<open>
  \<^verbatim>\<open>s.substring(a, b)\<close>: both arguments are clamped to the string and
  swapped when \<open>a > b\<close>; \<^verbatim>\<open>s.substring(a)\<close> runs to the end.
\<close>

definition substring :: "string \<Rightarrow> int \<Rightarrow> int \<Rightarrow> string" where
  "substring s a b =
     (let a' = min (max a 0) (int (length s));
          b' = min (max b 0) (int (length s));
          lo = min a' b'; hi = max a' b'
      in take (nat (hi - lo)) (drop (nat lo) s))"

definition substring_from :: "string \<Rightarrow> int \<Rightarrow> string" where
  "substring_from s a = substring s a (int (length s))"

text \<open>
  \<^verbatim>\<open>toLowerCase()\<close> on code units below 256: the ASCII capitals and
  the Latin-1 capitals (0xC0 to 0xDE without the multiplication sign 0xD7) move
  up by 32.
\<close>

definition latin1_upper :: string where
  "latin1_upper =
     [CHR 0xC0, CHR 0xC1, CHR 0xC2, CHR 0xC3, CHR 0xC4, CHR 0xC5, CHR 0xC6, CHR 0xC7,
      CHR 0xC8, CHR 0xC9, CHR 0xCA, CHR 0xCB, CHR 0xCC, CHR 0xCD, CHR 0xCE, CHR 0xCF,
      CHR 0xD0, CHR 0xD1, CHR 0xD2, CHR 0xD3, CHR 0xD4, CHR 0xD5, CHR 0xD6,
      CHR 0xD8, CHR 0xD9, CHR 0xDA, CHR 0xDB, CHR 0xDC, CHR 0xDD, CHR 0xDE]"

definition latin1_lower :: string where
  "latin1_lower =
     [CHR 0xE0, CHR 0xE1, CHR 0xE2, CHR 0xE3, CHR 0xE4, CHR 0xE5, CHR 0xE6, CHR 0xE7,
      CHR 0xE8, CHR 0xE9, CHR 0xEA, CHR 0xEB, CHR 0xEC, CHR 0xED, CHR 0xEE, CHR 0xEF,
      CHR 0xF0, CHR 0xF1, CHR 0xF2, CHR 0xF3, CHR 0xF4, CHR 0xF5, CHR 0xF6,
      CHR 0xF8, CHR 0xF9, CHR 0xFA, CHR 0xFB, CHR 0xFC, CHR 0xFD, CHR 0xFE]"

definition toLowerCase :: "string \<Rightarrow> string" where
  "toLowerCase s =
     map (\<lambda>c. case map_of (zip (upper_case @ latin1_upper) (lower_case @ latin1_lower)) c of
                 None \<Rightarrow> c | Some l \<Rightarrow> l) s"

text \<open>The decimal text of a natural number, as a template literal inserts it.\<close>

fun digits_of :: "nat \<Rightarrow> nat \<Rightarrow> string" where
  "digits_of 0 n = []"
| "digits_of (Suc fuel) n =
     (if n < 10 then [''0123456789'' ! n]
      else digits_of fuel (n div 10) @ [''0123456789'' ! (n mod 10)])"

definition show_nat :: "nat \<Rightarrow> string" where
  "show_nat n = digits_of (Suc n) n"

text \<open>\<^verbatim>\<open>words.join(' ')\<close>.\<close>

fun join_with :: "string \<Rightarrow> string list \<Rightarrow> string" where
  "join_with sep [] = []"
| "join_with sep [w] = w"
| "join_with sep (w # ws) = w @ sep @ join_with sep ws"

text \<open>\<^verbatim>\<open>xs.slice(a, b)\<close> for \<open>0 \<le> a \<le> b\<close>.\<close>

definition slice :: "'a list \<Rightarrow> nat \<Rightarrow> nat \<Rightarrow> 'a list" where
  "slice xs a b = take (b - a) (drop a xs)"

text \<open>The whitespace pattern \<^verbatim>\<open>/\s+/\<close> and the word count \<^verbatim>\<open>s.split(/\s+/).length\<close>.\<close>

definition ws_plus :: regex where
  "ws_plus = rplus (Atom is_space)"

definition count_words :: "string \<Rightarrow> nat" where
  "count_words s = length (split_re ws_plus s)"

section \<open>The job queue: \<^verbatim>\<open>get_next_job\<close>\<close>

text \<open>
  The table \<^verbatim>\<open>processing_jobs\<close> of the last migration
  (\<^verbatim>\<open>20250803180000_cleanup_unused_elements.sql\<close>). A table is
  the list of its rows. Columns that the schema leaves nullable are options; a
  timestamp is a number of microseconds (UTC); a UUID is a natural number; a
  JSONB payload is its text.
\<close>

datatype job_status = JPending | JRunning | JCompleted | JFailed | JRetrying

datatype job_type = Extract_text | Detect_chapters | Store_chapters | Enhance_chapters

record processing_job =
  job_id :: nat
  job_book_id :: nat
  job_type :: job_type
  job_status :: job_status
  job_priority :: int
  job_input_data :: "string option"
  job_retry_count :: "int option"
  job_max_retries :: "int option"
  job_depends_on_job :: "nat option"
  job_started_at :: "int option"
  job_created_at :: int
  job_updated_at :: int

text \<open>The row that \<^verbatim>\<open>RETURNING\<close> hands to the caller.\<close>

record next_job =
  nj_id :: nat
  nj_book_id :: nat
  nj_job_type :: job_type
  nj_input_data :: "string option"
  nj_priority :: int
  nj_retry_count :: "int option"

text \<open>
  \<^verbatim>\<open>LEFT JOIN processing_jobs dep ON j.depends_on_job = dep.id\<close>:
  the status of the row the dependency names, NULL when the column is NULL or
  names no row (\<^verbatim>\<open>id\<close> is the primary key, so at most one row joins).
\<close>

definition dep_status :: "processing_job list \<Rightarrow> processing_job \<Rightarrow> job_status option" where
  "dep_status tbl j =
     (case job_depends_on_job j of
        None \<Rightarrow> None
      | Some d \<Rightarrow> map_option job_status (find (\<lambda>r. job_id r = d) tbl))"

text \<open>
  SQL's three-valued logic: \<open>None\<close> is NULL (unknown).
\<close>

fun sql_and :: "bool option \<Rightarrow> bool option \<Rightarrow> bool option" where
  "sql_and (Some False) _ = Some False"
| "sql_and _ (Some False) = Some False"
| "sql_and (Some True) (Some True) = Some True"
| "sql_and _ _ = None"

fun sql_or :: "bool option \<Rightarrow> bool option \<Rightarrow> bool option" where
  "sql_or (Some True) _ = Some True"
| "sql_or _ (Some True) = Some True"
| "sql_or (Some False) (Some False) = Some False"
| "sql_or _ _ = None"

text \<open>
  The \<^verbatim>\<open>WHERE\<close> clause of the inner \<^verbatim>\<open>SELECT\<close>, as it is
  written:

  \<^verbatim>\<open>j.status = 'pending' AND (j.depends_on_job IS NULL OR dep.status = 'completed') AND j.retry_count < j.max_retries\<close>
\<close>

datatype condition =
    Status_is_pending
  | Depends_on_job_is_null
  | Dep_status_is_completed
  | Retry_count_below_max
  | And condition condition
  | Or condition condition

definition where_clause :: condition where
  "where_clause =
     And (And Status_is_pending (Or Depends_on_job_is_null Dep_status_is_completed))
         Retry_count_below_max"

text \<open>
  The value of a condition on a row of \<^verbatim>\<open>j LEFT JOIN dep\<close>. A
  comparison with a NULL operand is NULL; \<^verbatim>\<open>IS NULL\<close> is never NULL.
\<close>

fun holds :: "processing_job list \<Rightarrow> processing_job \<Rightarrow> condition \<Rightarrow> bool option" where
  "holds tbl j Status_is_pending = Some (job_status j = JPending)"
| "holds tbl j Depends_on_job_is_null = Some (job_depends_on_job j = None)"
| "holds tbl j Dep_status_is_completed = map_option (\<lambda>s. s = JCompleted) (dep_status tbl j)"
| "holds tbl j Retry_count_below_max =
     (case (job_retry_count j, job_max_retries j) of
        (Some r, Some m) \<Rightarrow> Some (r < m)
      | _ \<Rightarrow> None)"
| "holds tbl j (And a b) = sql_and (holds tbl j a) (holds tbl j b)"
| "holds tbl j (Or a b) = sql_or (holds tbl j a) (holds tbl j b)"

text \<open>\<^verbatim>\<open>WHERE\<close> keeps a row only when its condition is true.\<close>

definition claimable :: "processing_job list \<Rightarrow> processing_job \<Rightarrow> bool" where
  "claimable tbl j \<longleftrightarrow> holds tbl j where_clause = Some True"

text \<open>
  The row lock. \<^verbatim>\<open>FOR UPDATE SKIP LOCKED\<close> is written without
  \<^verbatim>\<open>OF\<close>, so it asks for a lock on the rows of every relation of the
  \<^verbatim>\<open>FROM\<close> clause: \<^verbatim>\<open>j\<close> and \<^verbatim>\<open>dep\<close>. The relation
  \<^verbatim>\<open>dep\<close> is the nullable side of the \<^verbatim>\<open>LEFT JOIN\<close>.
  PostgreSQL refuses to lock the nullable side of an outer join (SQLSTATE 0A000,
  "FOR UPDATE cannot be applied to the nullable side of an outer join"). It
  locks the relation only if the join is in fact an inner join, which it
  concludes when the \<^verbatim>\<open>WHERE\<close> clause cannot be true on a row whose
  \<^verbatim>\<open>dep\<close> columns are all NULL: a comparison on a column of
  \<^verbatim>\<open>dep\<close> rejects such a row, a conjunction rejects it when one
  conjunct does, a disjunction when both disjuncts do.
\<close>

datatype relation = Rel_j | Rel_dep

definition from_clause :: "relation list" where
  "from_clause = [Rel_j, Rel_dep]"

definition nullable_side :: "relation list" where
  "nullable_side = [Rel_dep]"

text \<open>The relations named after \<^verbatim>\<open>FOR UPDATE OF\<close>; there is no such list.\<close>

definition for_update_of :: "relation list option" where
  "for_update_of = None"

definition locked_relations :: "relation list" where
  "locked_relations = (case for_update_of of None \<Rightarrow> from_clause | Some rs \<Rightarrow> rs)"

fun rejects_null_dep :: "condition \<Rightarrow> bool" where
  "rejects_null_dep Dep_status_is_completed = True"
| "rejects_null_dep (And a b) = (rejects_null_dep a \<or> rejects_null_dep b)"
| "rejects_null_dep (Or a b) = (rejects_null_dep a \<and> rejects_null_dep b)"
| "rejects_null_dep _ = False"

definition lock_refused :: bool where
  "lock_refused \<longleftrightarrow>
     filter (\<lambda>r. r \<in> set nullable_side) locked_relations \<noteq> []
     \<and> \<not> rejects_null_dep where_clause"

datatype sql_error = Feature_not_supported \<comment> \<open>SQLSTATE 0A000\<close>

text \<open>\<^verbatim>\<open>ORDER BY j.priority ASC, j.created_at ASC\<close>.\<close>

definition ordered_before :: "processing_job \<Rightarrow> processing_job \<Rightarrow> bool" where
  "ordered_before j k \<longleftrightarrow>
     job_priority j < job_priority k
     \<or> (job_priority j = job_priority k \<and> job_created_at j \<le> job_created_at k)"

text \<open>
  \<^verbatim>\<open>LIMIT 1\<close> of the ordered rows. Among rows equal in both sort
  keys SQL may return any; the model returns the first of them in the table.
\<close>

fun first_ordered :: "processing_job list \<Rightarrow> processing_job option" where
  "first_ordered [] = None"
| "first_ordered (j # js) =
     (case first_ordered js of
        None \<Rightarrow> Some j
      | Some k \<Rightarrow> if ordered_before j k then Some j else Some k)"

definition returning :: "processing_job \<Rightarrow> next_job" where
  "returning j =
     \<lparr> nj_id = job_id j, nj_book_id = job_book_id j, nj_job_type = job_type j,
       nj_input_data = job_input_data j, nj_priority = job_priority j,
       nj_retry_count = job_retry_count j \<rparr>"

text \<open>
  \<^verbatim>\<open>get_next_job()\<close>, called at time \<open>now\<close> with no other transaction
  holding a row lock (\<^verbatim>\<open>SKIP LOCKED\<close> then skips nothing). The
  function is one \<^verbatim>\<open>UPDATE\<close> whose \<^verbatim>\<open>WHERE\<close> reads the inner
  \<^verbatim>\<open>SELECT\<close>. When the row lock of the inner \<^verbatim>\<open>SELECT\<close> is
  refused the statement raises and changes nothing; otherwise the result is the
  returned row set and the table after the \<^verbatim>\<open>UPDATE\<close>.
\<close>

definition get_next_job ::
  "int \<Rightarrow> processing_job list \<Rightarrow> sql_error + next_job list \<times> processing_job list" where
  "get_next_job now tbl =
     (if lock_refused then Inl Feature_not_supported
      else
        (case first_ordered (filter (claimable tbl) tbl) of
           None \<Rightarrow> Inr ([], tbl)
         | Some s \<Rightarrow>
             (let upd = (\<lambda>r. if job_id r = job_id s
                              then r\<lparr> job_status := JRunning, job_started_at := Some now,
                                     job_updated_at := now \<rparr>
                              else r)
              in Inr (map returning (filter (\<lambda>r. job_id r = job_id s) (map upd tbl)),
                      map upd tbl))))"

text \<open>
  \<^verbatim>\<open>enqueue_job\<close>: the inserted row takes the column defaults
  (status pending, retry count 0, at most 3 retries).
\<close>

definition enqueue_job ::
  "int \<Rightarrow> nat \<Rightarrow> nat \<Rightarrow> job_type \<Rightarrow> string option \<Rightarrow> int \<Rightarrow> nat option \<Rightarrow> processing_job list
     \<Rightarrow> processing_job list" where
  "enqueue_job now new_id p_book_id p_job_type p_input_data p_priority p_depends_on_job tbl =
     tbl @ [\<lparr> job_id = new_id, job_book_id = p_book_id, job_type = p_job_type,
              job_status = JPending, job_priority = p_priority, job_input_data = p_input_data,
              job_retry_count = Some 0, job_max_retries = Some 3,
              job_depends_on_job = p_depends_on_job, job_started_at = None,
              job_created_at = now, job_updated_at = now \<rparr>]"

section \<open>The content cache: eviction\<close>

text \<open>The table \<^verbatim>\<open>processing_cache\<close>.\<close>

datatype cache_type = Text_extraction | Chapter_detection | Ai_enhancement | Full_workflow

record cache_entry =
  cache_key :: string
  cache_type :: cache_type
  input_hash :: string
  output_data :: string
  file_size :: "int option"
  hit_count :: "int option"
  cache_created_at :: int
  last_accessed_at :: int

text \<open>
  An interval of whole days in microseconds. Timestamps are UTC, where
  subtracting \<^verbatim>\<open>INTERVAL 'n days'\<close> (SQL) and
  \<^verbatim>\<open>setDate(getDate() - n)\<close> (JavaScript) both subtract \<open>n\<close>
  times 24 hours.
\<close>

definition days :: "int \<Rightarrow> int" where
  "days n = n * 86400000000"

text \<open>
  A comparison of a nullable integer column with a constant, under SQL's
  three-valued logic: NULL is not below anything.
\<close>

definition sql_lt :: "int option \<Rightarrow> int \<Rightarrow> bool" where
  "sql_lt c n = (case c of None \<Rightarrow> False | Some v \<Rightarrow> v < n)"

text \<open>
  \<^verbatim>\<open>cleanup_old_cache(p_days_old INTEGER DEFAULT 30)\<close> of the
  migration \<^verbatim>\<open>20250801170000_microservice_enhancements.sql\<close>: the
  table after the \<^verbatim>\<open>DELETE\<close>, and the row count it returns.
\<close>

definition cleanup_old_cache_days :: "int \<Rightarrow> int \<Rightarrow> cache_entry list \<Rightarrow> cache_entry list \<times> nat" where
  "cleanup_old_cache_days p_days_old now tbl =
     (let doomed = (\<lambda>e. cache_created_at e < now - days p_days_old \<and> sql_lt (hit_count e) 2)
      in (filter (\<lambda>e. \<not> doomed e) tbl, length (filter doomed tbl)))"

text \<open>
  \<^verbatim>\<open>cleanup_old_cache()\<close> of the last migration: the same statement
  with the interval fixed at \<^verbatim>\<open>'30 days'\<close>.
\<close>

definition cleanup_old_cache :: "int \<Rightarrow> cache_entry list \<Rightarrow> cache_entry list \<times> nat" where
  "cleanup_old_cache now tbl =
     (let doomed = (\<lambda>e. cache_created_at e < now - days 30 \<and> sql_lt (hit_count e) 2)
      in (filter (\<lambda>e. \<not> doomed e) tbl, length (filter doomed tbl)))"

text \<open>
  \<^verbatim>\<open>CACHE_CONFIG.CLEANUP\<close> and \<^verbatim>\<open>CacheManager.cleanup\<close> of
  \<^verbatim>\<open>shared/memory-utils.ts\<close>. The request is
  \<^verbatim>\<open>.delete().or(`hit_count.lt.2,created_at.lt.<cutoff>`).select('file_size').limit(1000)\<close>:
  the filter is the disjunction of its two conditions. Of the rows that match,
  the model deletes the first \<^verbatim>\<open>cleanupBatchSize\<close> in table
  order. The result is the table left, the number of deleted rows and the sum
  of their sizes (\<^verbatim>\<open>entry.file_size || 0\<close>).
\<close>

definition lowAccessThreshold :: int where
  "lowAccessThreshold = 2"

definition oldEntryThreshold :: int where
  "oldEntryThreshold = 90"

definition cleanupBatchSize :: nat where
  "cleanupBatchSize = 1000"

fun delete_limited :: "('a \<Rightarrow> bool) \<Rightarrow> nat \<Rightarrow> 'a list \<Rightarrow> 'a list \<times> 'a list" where
  "delete_limited P n [] = ([], [])"
| "delete_limited P n (x # xs) =
     (if P x \<and> 0 < n
      then (let (kept, gone) = delete_limited P (n - 1) xs in (kept, x # gone))
      else (let (kept, gone) = delete_limited P n xs in (x # kept, gone)))"

definition CacheManager_cleanup :: "int \<Rightarrow> cache_entry list \<Rightarrow> cache_entry list \<times> nat \<times> int" where
  "CacheManager_cleanup now tbl =
     (let cutoffDate = now - days oldEntryThreshold;
          (kept, deletedEntries) =
             delete_limited
               (\<lambda>e. sql_lt (hit_count e) lowAccessThreshold \<or> cache_created_at e < cutoffDate)
               cleanupBatchSize tbl
      in (kept, length deletedEntries,
          sum_list (map (\<lambda>e. case file_size e of None \<Rightarrow> 0 | Some n \<Rightarrow> n) deletedEntries)))"

section \<open>The enhancement worker: \<^verbatim>\<open>updateBookEnhancementStatus\<close>\<close>

text \<open>
  The column \<^verbatim>\<open>chapters.enhancement_status\<close> is a nullable text
  with a \<^verbatim>\<open>CHECK\<close> constraint to five values.
\<close>

datatype enhancement_status = EPending | EProcessing | ECompleted | EFailed | ESkipped

record chapter_row =
  ch_book_id :: nat
  ch_enhancement_status :: "enhancement_status option"

datatype processing_status = PPending | PProcessing | PCompleted | PFailed

record book_row =
  bk_id :: nat
  bk_processing_status :: processing_status
  bk_total_word_count :: "nat option"
  bk_estimated_total_reading_time :: "nat option"
  bk_enhancement_status :: "enhancement_status option"

record database =
  chapters_tbl :: "chapter_row list"
  books_tbl :: "book_row list"

text \<open>
  \<^verbatim>\<open>statusCounts.reduce((acc, chapter) => { acc[chapter.enhancement_status] =
  (acc[chapter.enhancement_status] || 0) + 1; return acc }, {})\<close>: a dictionary
  from status (NULL is a key of its own) to the number of chapters.
\<close>

definition count_step ::
  "(enhancement_status option \<rightharpoonup> nat) \<Rightarrow> enhancement_status option \<Rightarrow> (enhancement_status option \<rightharpoonup> nat)" where
  "count_step acc st = acc(st \<mapsto> (case acc st of None \<Rightarrow> 0 | Some c \<Rightarrow> c) + 1)"

definition status_counts :: "enhancement_status option list \<Rightarrow> (enhancement_status option \<rightharpoonup> nat)" where
  "status_counts sts = foldl count_step Map.empty sts"

text \<open>\<^verbatim>\<open>counts.completed || 0\<close>.\<close>

definition count_or_zero :: "(enhancement_status option \<rightharpoonup> nat) \<Rightarrow> enhancement_status \<Rightarrow> nat" where
  "count_or_zero counts st = (case counts (Some st) of None \<Rightarrow> 0 | Some c \<Rightarrow> c)"

definition overallStatus :: "enhancement_status option list \<Rightarrow> enhancement_status" where
  "overallStatus statusCounts =
     (let counts = status_counts statusCounts;
          totalChapters = length statusCounts;
          completed = count_or_zero counts ECompleted;
          failed = count_or_zero counts EFailed
      in if completed = totalChapters then ECompleted
         else if completed + failed = totalChapters
              then (if completed > failed then ECompleted else EFailed)
         else EProcessing)"

text \<open>
  The whole function. \<open>query_ok\<close> is whether the \<^verbatim>\<open>select\<close>
  returned rows (\<^verbatim>\<open>if (!statusCounts) return\<close>); the update writes
  the status on the rows of \<^verbatim>\<open>books\<close> with this id.
\<close>

definition updateBookEnhancementStatus :: "bool \<Rightarrow> nat \<Rightarrow> database \<Rightarrow> database" where
  "updateBookEnhancementStatus query_ok bookId db =
     (if \<not> query_ok then db
      else (let statusCounts =
                  map ch_enhancement_status (filter (\<lambda>c. ch_book_id c = bookId) (chapters_tbl db))
            in db\<lparr> books_tbl :=
                      map (\<lambda>b. if bk_id b = bookId
                                then b\<lparr> bk_enhancement_status := Some (overallStatus statusCounts) \<rparr>
                                else b) (books_tbl db) \<rparr>))"

section \<open>The text-extraction stage\<close>

text \<open>The seven replacements of \<^verbatim>\<open>cleanupExtractedText\<close>, in the order of the source.\<close>

definition re_whitespace_run :: regex where \<comment> \<open>\<^verbatim>\<open>/\s{3,}/g\<close>\<close>
  "re_whitespace_run = Rep 3 None (Atom is_space)"

definition re_page_number :: regex where \<comment> \<open>\<^verbatim>\<open>/^\s*\d+\s*$/gm\<close>\<close>
  "re_page_number = seqs [Bol, rstar (Atom is_space), rplus (Atom is_digit), rstar (Atom is_space), Eol]"

definition re_page_x_of_y :: regex where \<comment> \<open>\<^verbatim>\<open>/^.*Page \d+ of \d+.*$/gim\<close>\<close>
  "re_page_x_of_y =
     seqs [Bol, rstar rdot, lit_ci ''Page '', rplus (Atom is_digit), lit_ci '' of '',
           rplus (Atom is_digit), rstar rdot, Eol]"

definition re_chapter_page :: regex where \<comment> \<open>\<^verbatim>\<open>/^\s*Chapter \d+ Page \d+\s*$/gim\<close>\<close>
  "re_chapter_page =
     seqs [Bol, rstar (Atom is_space), lit_ci ''Chapter '', rplus (Atom is_digit), lit_ci '' Page '',
           rplus (Atom is_digit), rstar (Atom is_space), Eol]"

definition re_form_feed :: regex where \<comment> \<open>\<^verbatim>\<open>/\f/g\<close>\<close>
  "re_form_feed = Atom (\<lambda>c. c = form_feed)"

definition re_newlines4 :: regex where \<comment> \<open>\<^verbatim>\<open>/\n{4,}/g\<close>\<close>
  "re_newlines4 = Rep 4 None (Atom (\<lambda>c. c = newline))"

definition re_blanks :: regex where \<comment> \<open>\<^verbatim>\<open>/[ \t]+/g\<close>\<close>
  "re_blanks = rplus (Atom (\<lambda>c. c = CHR '' '' \<or> c = tab))"

definition cleanupExtractedText :: "string \<Rightarrow> string" where
  "cleanupExtractedText text0 =
     trim
       (replace_all re_blanks '' ''
         (replace_all re_newlines4 [newline, newline, newline]
           (replace_all re_form_feed [newline, newline]
             (replace_all re_chapter_page []
               (replace_all re_page_x_of_y []
                 (replace_all re_page_number []
                   (replace_all re_whitespace_run ''  '' text0)))))))"

text \<open>\<^verbatim>\<open>Math.ceil(wordCount / 250)\<close>.\<close>

definition estimatePages :: "string \<Rightarrow> nat" where
  "estimatePages text0 = (count_words text0 + 249) div 250"

text \<open>
  What the PDF-to-text capability (\<^verbatim>\<open>extractText\<close> of the library
  \<^verbatim>\<open>unpdf\<close>) returned: the text of the merged pages and a page count
  that may be missing.
\<close>

record pdf_result =
  pdf_text :: string
  pdf_totalPages :: "nat option"

text \<open>
  \<^verbatim>\<open>extractTextWithProgress\<close>. Its argument is the outcome of the
  capability: the message of the error it threw, or its result. The function
  throws (\<open>Inl\<close>, with the message) or returns the cleaned text and the page
  count. The progress updates catch their own errors and change nothing here.
\<close>

definition extractTextWithProgress :: "string + pdf_result \<Rightarrow> string + string \<times> nat" where
  "extractTextWithProgress outcome =
     (case outcome of
        Inl message \<Rightarrow> Inl (''Failed to extract text: '' @ message)
      | Inr result \<Rightarrow>
          if pdf_text result = [] \<or> length (trim (pdf_text result)) = 0
          then Inl (''Failed to extract text: '' @ ''No text could be extracted from PDF'')
          else (let cleanedText = cleanupExtractedText (pdf_text result)
                in Inr (cleanedText,
                        (case pdf_totalPages result of
                           None \<Rightarrow> estimatePages cleanedText
                         | Some n \<Rightarrow> if n = 0 then estimatePages cleanedText else n))))"

section \<open>The chapter boundary detector\<close>

record Chapter =
  title :: string
  content :: string
  wordCount :: nat
  startIndex :: int
  endIndex :: int
  detectionMethod :: string
  confidence :: rat
  boundary_strength :: "rat option"

text \<open>The result of one strategy (the interface \<^verbatim>\<open>DetectionResult\<close> with \<^verbatim>\<open>method\<close>).\<close>

record DetectionResult =
  chapters :: "Chapter list"
  method_name :: string
  result_confidence :: rat

record book =
  book_title :: string
  book_genre :: "string option"

subsection \<open>The pattern strategy\<close>

record pattern =
  pattern_regex :: regex
  pattern_confidence :: rat
  pattern_priority :: nat

definition number_words20 :: "string list" where
  "number_words20 =
     [''One'', ''Two'', ''Three'', ''Four'', ''Five'', ''Six'', ''Seven'', ''Eight'', ''Nine'',
      ''Ten'', ''Eleven'', ''Twelve'', ''Thirteen'', ''Fourteen'', ''Fifteen'', ''Sixteen'',
      ''Seventeen'', ''Eighteen'', ''Nineteen'', ''Twenty'']"

text \<open>\<^verbatim>\<open>(?:\s*[:\.\-]\s*(.*))?\<close>\<close>

definition re_title_tail :: regex where
  "re_title_tail =
     ropt (seqs [rstar (Atom is_space), one_of '':.-'', rstar (Atom is_space), Group 2 (rstar rdot)])"

text \<open>\<^verbatim>\<open>/^(?:Chapter|CHAPTER)\s+(\d+|[IVXLCDM]+|One|...|Twenty)(?:\s*[:\.\-]\s*(.*))?$/gim\<close>\<close>

definition re_chapter :: regex where
  "re_chapter =
     seqs [Bol, Alt (lit_ci ''Chapter'') (lit_ci ''CHAPTER''), rplus (Atom is_space),
           Group 1 (alts (rplus (Atom is_digit) # rplus (one_of_ci ''IVXLCDM'')
                          # map lit_ci number_words20)),
           re_title_tail, Eol]"

text \<open>\<^verbatim>\<open>/^(?:Part|PART)\s+(\d+|[IVXLCDM]+|One|Two|Three|Four|Five)(?:\s*[:\.\-]\s*(.*))?$/gim\<close>\<close>

definition re_part :: regex where
  "re_part =
     seqs [Bol, Alt (lit_ci ''Part'') (lit_ci ''PART''), rplus (Atom is_space),
           Group 1 (alts (rplus (Atom is_digit) # rplus (one_of_ci ''IVXLCDM'')
                          # map lit_ci (take 5 number_words20))),
           re_title_tail, Eol]"

text \<open>\<^verbatim>\<open>/^(\d+)[\.\)]\s+(.{10,80})$/gm\<close>\<close>

definition re_numbered :: regex where
  "re_numbered =
     seqs [Bol, Group 1 (rplus (Atom is_digit)), one_of ''.)'', rplus (Atom is_space),
           Group 2 (Rep 10 (Some 80) rdot), Eol]"

text \<open>\<^verbatim>\<open>/^[A-Z\s]{3,50}$/gm\<close>\<close>

definition re_all_caps :: regex where
  "re_all_caps = seqs [Bol, Rep 3 (Some 50) (Atom (\<lambda>c. is_upper c \<or> is_space c)), Eol]"

definition chapterPatterns :: "pattern list" where
  "chapterPatterns =
     [\<lparr> pattern_regex = re_chapter, pattern_confidence = 95 / 100, pattern_priority = 1 \<rparr>,
      \<lparr> pattern_regex = re_part, pattern_confidence = 90 / 100, pattern_priority = 2 \<rparr>,
      \<lparr> pattern_regex = re_numbered, pattern_confidence = 75 / 100, pattern_priority = 3 \<rparr>,
      \<lparr> pattern_regex = re_all_caps, pattern_confidence = 60 / 100, pattern_priority = 4 \<rparr>]"

record line_match =
  match_index :: int
  match_title :: string
  match_lineNum :: nat
  match_confidence :: rat

text \<open>
  \<^verbatim>\<open>match[2] ? `Chapter ${match[1]}: ${match[2]}` : (match[1] ? `Chapter ${match[1]}` : line)\<close>.
  A capture is falsy when its group took no part or matched the empty text; the
  template prints a missing capture as \<^verbatim>\<open>undefined\<close>.
\<close>

definition title_of_match :: "(nat \<times> string \<times> (nat \<times> string) list) \<Rightarrow> string \<Rightarrow> string" where
  "title_of_match m line =
     (let m1 = capture m 1; m2 = capture m 2;
          truthy = (\<lambda>g. case g of None \<Rightarrow> False | Some s \<Rightarrow> s \<noteq> []);
          shown = (\<lambda>g. case g of None \<Rightarrow> ''undefined'' | Some s \<Rightarrow> s)
      in if truthy m2 then ''Chapter '' @ shown m1 @ '': '' @ shown m2
         else if truthy m1 then ''Chapter '' @ shown m1
         else line)"

text \<open>The inner loop over the lines, for one pattern.\<close>

definition line_matches :: "pattern \<Rightarrow> string \<Rightarrow> line_match list" where
  "line_matches pat text0 =
     concat (map (\<lambda>(i, l).
        (let line = trim l
         in if length line < 3 \<or> length line > 150 then []
            else (case exec (pattern_regex pat) line of
                    None \<Rightarrow> []
                  | Some m \<Rightarrow>
                      (let textIndex = indexOf text0 line
                       in if textIndex \<noteq> - 1
                          then [\<lparr> match_index = textIndex, match_title = trim (title_of_match m line),
                                  match_lineNum = i, match_confidence = pattern_confidence pat \<rparr>]
                          else []))))
       (enumerate 0 (split_on newline text0)))"

text \<open>The outer loop: \<^verbatim>\<open>bestMatches\<close> and \<^verbatim>\<open>highestConfidence\<close> after the patterns \<open>pats\<close>.\<close>

definition try_pattern ::
  "string \<Rightarrow> line_match list \<times> rat \<Rightarrow> pattern \<Rightarrow> line_match list \<times> rat" where
  "try_pattern text0 best pat =
     (let found = line_matches pat text0
      in if length found \<ge> 2 \<and> pattern_confidence pat > snd best
         then (found, pattern_confidence pat)
         else best)"

definition best_matches :: "pattern list \<Rightarrow> string \<Rightarrow> line_match list \<times> rat" where
  "best_matches pats text0 = foldl (try_pattern text0) ([], 0) pats"

text \<open>
  \<^verbatim>\<open>calculateBoundaryStrength(lines, lineNum)\<close>; the two patterns are
  \<^verbatim>\<open>/^[A-Z\s]+$/\<close> and \<^verbatim>\<open>/^\d+[\.\)]/\<close>.
\<close>

definition calculateBoundaryStrength :: "string list \<Rightarrow> nat \<Rightarrow> rat" where
  "calculateBoundaryStrength lines lineNum =
     (let prevLine = (if lineNum > 0 then trim (lines ! (lineNum - 1)) else []);
          nextLine = (if lineNum + 1 < length lines then trim (lines ! (lineNum + 1)) else []);
          s0 = 5 / 10;
          s1 = (if prevLine = [] \<and> nextLine = [] then s0 + 3 / 10 else s0);
          s2 = (if test (seqs [Bos, rplus (Atom (\<lambda>c. is_upper c \<or> is_space c)), Eos]) (lines ! lineNum)
                then s1 + 2 / 10 else s1);
          s3 = (if test (seqs [Bos, rplus (Atom is_digit), one_of ''.)'']) (lines ! lineNum)
                then s2 + 2 / 10 else s2)
      in min s3 1)"

text \<open>The chapter that starts at the \<open>i\<close>-th of the sorted matches, if it is long enough.\<close>

definition pattern_chapter :: "string \<Rightarrow> line_match list \<Rightarrow> nat \<Rightarrow> Chapter list" where
  "pattern_chapter text0 ordered i =
     (let m = ordered ! i;
          start = match_index m;
          end0 = (if i + 1 < length ordered then match_index (ordered ! (i + 1)) else int (length text0));
          body = trim (substring text0 start end0)
      in if length body > 500
         then [\<lparr> title = match_title m, content = body, wordCount = count_words body,
                 startIndex = start, endIndex = end0, detectionMethod = ''pattern_based'',
                 confidence = match_confidence m,
                 boundary_strength =
                   Some (calculateBoundaryStrength (split_on newline text0) (match_lineNum m)) \<rparr>]
         else [])"

definition detectPatternBasedChapters :: "string \<Rightarrow> DetectionResult" where
  "detectPatternBasedChapters text0 =
     (let (bestMatches, highestConfidence) = best_matches chapterPatterns text0;
          ordered = sort_key match_index bestMatches
      in \<lparr> chapters = concat (map (pattern_chapter text0 ordered) [0..<length ordered]),
           method_name = ''pattern_based'',
           result_confidence = highestConfidence \<rparr>)"

subsection \<open>The structural strategy\<close>

text \<open>The sentence punctuation \<^verbatim>\<open>[.!?]\<close>, and the separator \<^verbatim>\<open>/[.!?]+/\<close>.\<close>

definition re_sentence_end :: regex where
  "re_sentence_end = rplus (one_of ''.!?'')"

definition calculateStructuralBreakStrength :: "string \<Rightarrow> string \<Rightarrow> rat" where
  "calculateStructuralBreakStrength beforeText afterText =
     (let beforeWords = count_words (trim beforeText);
          afterWords = count_words (trim afterText);
          s0 = 3 / 10;
          s1 = (if beforeWords > 100 \<and> afterWords > 100 then s0 + 4 / 10 else s0);
          beforeEndsWithPunctuation = test (seqs [one_of ''.!?'', Eos]) (trim beforeText);
          afterStartsCapitalized = test (seqs [Bos, Atom is_upper]) (trim afterText);
          s2 = (if beforeEndsWithPunctuation \<and> afterStartsCapitalized then s1 + 3 / 10 else s1)
      in min s2 1)"

definition generateStructuralTitle :: "string \<Rightarrow> nat \<Rightarrow> string" where
  "generateStructuralTitle body chapterNum =
     (let firstLine = (case find (\<lambda>line. length (trim line) > 0) (split_on newline body) of
                         None \<Rightarrow> []
                       | Some line \<Rightarrow> trim line)
      in if length firstLine > 10 \<and> length firstLine < 80 then firstLine
         else ''Chapter '' @ show_nat chapterNum)"

text \<open>
  The loop over \<^verbatim>\<open>textParts\<close>, the pieces between runs of three or
  more newlines (\<^verbatim>\<open>/\n\n\n+/\<close>): the breaks of strength above 0.5, each
  with the running offset \<^verbatim>\<open>currentIndex\<close>. \<open>prior\<close> is the piece
  before the current one (none at \<^verbatim>\<open>i = 0\<close>).
\<close>

fun structural_breaks :: "string option \<Rightarrow> string list \<Rightarrow> int \<Rightarrow> (int \<times> rat) list" where
  "structural_breaks prior [] currentIndex = []"
| "structural_breaks prior (part # parts) currentIndex =
     (case prior of
        None \<Rightarrow> []
      | Some b \<Rightarrow>
          (let breakStrength = calculateStructuralBreakStrength b part
           in if breakStrength > 5 / 10 then [(currentIndex, breakStrength)] else []))
     @ structural_breaks (Some part) parts (currentIndex + int (length part) + 3)"

definition structural_chapter :: "string \<Rightarrow> (int \<times> rat) list \<Rightarrow> nat \<Rightarrow> Chapter list" where
  "structural_chapter text0 breaks i =
     (let breakPoint = breaks ! i;
          start = (if i = 0 then 0 else fst breakPoint);
          end0 = (if i + 1 < length breaks then fst (breaks ! (i + 1)) else int (length text0));
          body = trim (substring text0 start end0)
      in if length body > 1000
         then [\<lparr> title = generateStructuralTitle body (i + 1), content = body,
                 wordCount = count_words body, startIndex = start, endIndex = end0,
                 detectionMethod = ''structural'', confidence = snd breakPoint,
                 boundary_strength = Some (snd breakPoint) \<rparr>]
         else [])"

text \<open>The mean confidence of the chapters, or the default when there is none.\<close>

definition average_confidence :: "Chapter list \<Rightarrow> rat \<Rightarrow> rat" where
  "average_confidence chs dflt =
     (if length chs > 0 then foldl (\<lambda>sum ch. sum + confidence ch) 0 chs / of_nat (length chs)
      else dflt)"

text \<open>
  \<^verbatim>\<open>detectStructuralChapters\<close>. The object
  \<^verbatim>\<open>structuralIndicators\<close> of the source is computed and never read.
\<close>

definition detectStructuralChapters :: "string \<Rightarrow> DetectionResult" where
  "detectStructuralChapters text0 =
     (let textParts = split_re (seqs [lit [newline, newline], rplus (lit [newline])]) text0;
          structuralBreaks = sort_key fst (structural_breaks None textParts 0);
          chs = concat (map (structural_chapter text0 structuralBreaks) [0..<length structuralBreaks])
      in \<lparr> chapters = chs, method_name = ''structural'',
           result_confidence = average_confidence chs (4 / 10) \<rparr>)"

subsection \<open>The semantic strategy\<close>

definition topicMarkers :: "string list" where
  "topicMarkers = [''meanwhile'', ''later'', ''the next'', ''suddenly'', ''then'', ''now'', ''after'']"

definition timeMarkers :: "string list" where
  "timeMarkers = [''morning'', ''evening'', ''day'', ''night'', ''week'', ''month'', ''year'']"

definition placeMarkers :: "string list" where
  "placeMarkers = [''at'', ''in'', ''outside'', ''inside'', ''nearby'', ''across'']"

definition add_markers :: "string \<Rightarrow> rat \<Rightarrow> rat \<Rightarrow> string list \<Rightarrow> rat" where
  "add_markers currentLower step shift markers =
     foldl (\<lambda>acc marker. if str_includes currentLower marker then acc + step else acc) shift markers"

definition calculateSemanticShift :: "string \<Rightarrow> string \<Rightarrow> string \<Rightarrow> rat" where
  "calculateSemanticShift prev current next0 =
     (let currentLower = toLowerCase current;
          s1 = add_markers currentLower (2 / 10) (3 / 10) topicMarkers;
          s2 = add_markers currentLower (15 / 100) s1 timeMarkers;
          s3 = add_markers currentLower (1 / 10) s2 placeMarkers
      in min s3 1)"

definition generateSemanticTitle :: "string \<Rightarrow> string \<Rightarrow> nat \<Rightarrow> string" where
  "generateSemanticTitle body bookTitle chapterNum =
     (let sentences = filter (\<lambda>s. length (trim s) > 10) (split_re re_sentence_end body)
      in case sentences of
           [] \<Rightarrow> bookTitle @ '' - Chapter '' @ show_nat chapterNum
         | s # _ \<Rightarrow>
             (let firstSentence = trim s
              in if firstSentence \<noteq> [] \<and> length firstSentence < 80
                 then bookTitle @ '' - '' @ firstSentence @ ''...''
                 else bookTitle @ '' - Chapter '' @ show_nat chapterNum))"

text \<open>The first loop: the sentences \<open>1\<close> to \<open>length - 2\<close> whose shift is above 0.6 and whose text (with a full stop) occurs in the document.\<close>

definition semantic_breaks :: "string \<Rightarrow> (int \<times> rat) list" where
  "semantic_breaks text0 =
     (let sentences = filter (\<lambda>s. length (trim s) > 20) (split_re re_sentence_end text0)
      in concat (map (\<lambda>i.
           (let prevSentence = trim (sentences ! (i - 1));
                currentSentence = trim (sentences ! i);
                nextSentence = trim (sentences ! (i + 1));
                semanticShift = calculateSemanticShift prevSentence currentSentence nextSentence
            in if semanticShift > 6 / 10
               then (let index = indexOf text0 (currentSentence @ ''.'')
                     in if index \<noteq> - 1 then [(index, semanticShift)] else [])
               else []))
          [1..<length sentences - 1]))"

text \<open>
  The state of the second loop: the chapters so far, \<^verbatim>\<open>chapterStart\<close>,
  \<^verbatim>\<open>chapterNumber\<close> and \<^verbatim>\<open>currentWords\<close>.
\<close>

definition semantic_step ::
  "string \<Rightarrow> string \<Rightarrow> Chapter list \<times> int \<times> nat \<times> nat \<Rightarrow> int \<times> rat
     \<Rightarrow> Chapter list \<times> int \<times> nat \<times> nat" where
  "semantic_step text0 bookTitle state breakPoint =
     (let (chs, chapterStart, chapterNumber, words0) = state;
          segmentText = substring text0 chapterStart (fst breakPoint);
          currentWords = words0 + count_words segmentText;
          shouldBreak = ((currentWords \<ge> 1200 \<and> (currentWords \<ge> 2500 \<or> snd breakPoint > 8 / 10))
                         \<or> currentWords \<ge> 4000);
          body = trim (substring text0 chapterStart (fst breakPoint))
      in if shouldBreak \<and> length body > 500
         then (chs @ [\<lparr> title = generateSemanticTitle body bookTitle chapterNumber, content = body,
                        wordCount = currentWords, startIndex = chapterStart,
                        endIndex = fst breakPoint, detectionMethod = ''semantic'',
                        confidence = snd breakPoint, boundary_strength = Some (snd breakPoint) \<rparr>],
               fst breakPoint, chapterNumber + 1, 0)
         else (chs, chapterStart, chapterNumber, currentWords))"

definition detectSemanticChapters :: "string \<Rightarrow> string \<Rightarrow> DetectionResult" where
  "detectSemanticChapters text0 bookTitle =
     (let (chs, chapterStart, chapterNumber, currentWords) =
            foldl (semantic_step text0 bookTitle) ([], 0, 1, 0) (semantic_breaks text0);
          rest = (if chapterStart < int (length text0) - 500
                  then (let body = trim (substring_from text0 chapterStart);
                            wc = count_words body
                        in if wc > 300
                           then [\<lparr> title = generateSemanticTitle body bookTitle chapterNumber,
                                   content = body, wordCount = wc, startIndex = chapterStart,
                                   endIndex = int (length text0), detectionMethod = ''semantic'',
                                   confidence = 7 / 10, boundary_strength = Some (7 / 10) \<rparr>]
                           else [])
                  else []);
          all_chs = chs @ rest
      in \<lparr> chapters = all_chs, method_name = ''semantic'',
           result_confidence = average_confidence all_chs (6 / 10) \<rparr>)"

subsection \<open>The adaptive strategy\<close>

datatype strategy = Short_form | Medium_form | Long_form | Academic | Narrative

fun strategy_name :: "strategy \<Rightarrow> string" where
  "strategy_name Short_form = ''short_form''"
| "strategy_name Medium_form = ''medium_form''"
| "strategy_name Long_form = ''long_form''"
| "strategy_name Academic = ''academic''"
| "strategy_name Narrative = ''narrative''"

text \<open>\<^verbatim>\<open>strategyConfig\<close>: the target, the minimum and the maximum of words in a chapter.\<close>

fun targetWords :: "strategy \<Rightarrow> nat" where
  "targetWords Short_form = 1500"
| "targetWords Medium_form = 2500"
| "targetWords Long_form = 3500"
| "targetWords Academic = 4000"
| "targetWords Narrative = 3000"

fun minWords :: "strategy \<Rightarrow> nat" where
  "minWords Short_form = 800"
| "minWords Medium_form = 1500"
| "minWords Long_form = 2000"
| "minWords Academic = 2500"
| "minWords Narrative = 1800"

fun maxWords :: "strategy \<Rightarrow> nat" where
  "maxWords Short_form = 2500"
| "maxWords Medium_form = 4000"
| "maxWords Long_form = 6000"
| "maxWords Academic = 8000"
| "maxWords Narrative = 5000"

definition chapterSize :: "strategy \<Rightarrow> nat \<Rightarrow> nat" where
  "chapterSize strat remainingWords =
     min (max (minWords strat) (min (targetWords strat) remainingWords)) (maxWords strat)"

lemma chapterSize_pos: "0 < chapterSize strat n"
  by (cases strat) (simp_all add: chapterSize_def)

text \<open>The \<^verbatim>\<open>while\<close> loop of \<^verbatim>\<open>applyAdaptiveStrategy\<close>.\<close>

function adaptive_loop :: "string list \<Rightarrow> strategy \<Rightarrow> string \<Rightarrow> nat \<Rightarrow> nat \<Rightarrow> Chapter list" where
  "adaptive_loop words strat bookTitle chapterStart chapterNum =
     (if chapterStart < length words
      then (let size0 = chapterSize strat (length words - chapterStart);
                chapterWords = slice words chapterStart (chapterStart + size0);
                body = join_with '' '' chapterWords;
                here = (if length (trim body) > 100
                        then [\<lparr> title = bookTitle @ '' - Part '' @ show_nat chapterNum,
                                content = body, wordCount = length chapterWords,
                                startIndex = int chapterStart, endIndex = int (chapterStart + size0),
                                detectionMethod = ''adaptive_'' @ strategy_name strat,
                                confidence = 8 / 10, boundary_strength = None \<rparr>]
                        else [])
            in here @ adaptive_loop words strat bookTitle (chapterStart + size0) (chapterNum + 1))
      else [])"
  by pat_completeness auto
termination
  by (relation "measure (\<lambda>(words, strat, bookTitle, chapterStart, chapterNum). length words - chapterStart)")
    (use chapterSize_pos in \<open>auto simp: Let_def diff_less_mono2\<close>)

definition applyAdaptiveStrategy :: "string \<Rightarrow> strategy \<Rightarrow> string \<Rightarrow> Chapter list" where
  "applyAdaptiveStrategy text0 strat bookTitle =
     adaptive_loop (split_re ws_plus text0) strat bookTitle 0 1"

definition detectAdaptiveChapters :: "string \<Rightarrow> book \<Rightarrow> DetectionResult" where
  "detectAdaptiveChapters text0 bk =
     (let wc = count_words text0;
          strat = (if wc < 20000 then Short_form
                   else if wc < 80000 then Medium_form
                   else if wc < 200000 then Long_form
                   else if (case book_genre bk of None \<Rightarrow> False | Some g \<Rightarrow> str_includes g ''academic'')
                           \<or> str_includes text0 ''bibliography'' \<or> str_includes text0 ''references''
                        then Academic
                   else Narrative)
      in \<lparr> chapters = applyAdaptiveStrategy text0 strat (book_title bk),
           method_name = ''adaptive_'' @ strategy_name strat,
           result_confidence = 8 / 10 \<rparr>)"

subsection \<open>The fallback chunker and the parallel run\<close>

text \<open>The \<^verbatim>\<open>for\<close> loop of \<^verbatim>\<open>createOptimizedChunks\<close>, with \<^verbatim>\<open>targetWords = 2000\<close>.\<close>

function chunk_loop :: "string list \<Rightarrow> string \<Rightarrow> nat \<Rightarrow> Chapter list" where
  "chunk_loop words bookTitle i =
     (if i < length words
      then (let chunkWords = slice words i (i + 2000);
                body = join_with '' '' chunkWords;
                here = (if length (trim body) > 100
                        then [\<lparr> title = bookTitle @ '' - Part '' @ show_nat (i div 2000 + 1),
                                content = body, wordCount = length chunkWords,
                                startIndex = int i, endIndex = int (i + length chunkWords),
                                detectionMethod = ''optimized_chunking'',
                                confidence = 4 / 10, boundary_strength = None \<rparr>]
                        else [])
            in here @ chunk_loop words bookTitle (i + 2000))
      else [])"
  by pat_completeness auto
termination
  by (relation "measure (\<lambda>(words, bookTitle, i). length words - i)") auto

definition createOptimizedChunks :: "string \<Rightarrow> string \<Rightarrow> Chapter list" where
  "createOptimizedChunks text0 bookTitle = chunk_loop (split_re ws_plus text0) bookTitle 0"

text \<open>
  How a promise of \<^verbatim>\<open>Promise.allSettled\<close> ended. In the model the four
  strategies are total functions and always fulfil.
\<close>

datatype 'a settled = Fulfilled 'a | Rejected

definition successful :: "DetectionResult settled list \<Rightarrow> DetectionResult list" where
  "successful results =
     concat (map (\<lambda>r. case r of
                        Fulfilled v \<Rightarrow> if length (chapters v) > 0 then [v] else []
                      | Rejected \<Rightarrow> []) results)"

definition runParallelDetection_settled ::
  "DetectionResult settled list \<Rightarrow> string \<Rightarrow> book \<Rightarrow> DetectionResult list" where
  "runParallelDetection_settled results text0 bk =
     (let successfulResults = successful results
      in if length successfulResults = 0
         then successfulResults @
              [\<lparr> chapters = createOptimizedChunks text0 (book_title bk),
                 method_name = ''fallback_chunking'', result_confidence = 3 / 10 \<rparr>]
         else successfulResults)"

definition runParallelDetection :: "string \<Rightarrow> book \<Rightarrow> DetectionResult list" where
  "runParallelDetection text0 bk =
     runParallelDetection_settled
       [Fulfilled (detectPatternBasedChapters text0),
        Fulfilled (detectStructuralChapters text0),
        Fulfilled (detectSemanticChapters text0 (book_title bk)),
        Fulfilled (detectAdaptiveChapters text0 bk)]
       text0 bk"

section \<open>Double-precision numbers\<close>

text \<open>
  The numbers of the scoring function are IEEE 754 binary64 values. A finite
  number is held by its exact value, a rational; the sign of a zero is not
  recorded. The results of \<^verbatim>\<open>+\<close>, \<^verbatim>\<open>-\<close>, \<^verbatim>\<open>*\<close> and
  \<^verbatim>\<open>/\<close> are the exact results rounded to the nearest double, ties to
  the even significand.
\<close>

datatype double = Num rat | PInf | NInf | NaN

definition pow2 :: "int \<Rightarrow> rat" where
  "pow2 e = (if 0 \<le> e then 2 ^ nat e else 1 / 2 ^ nat (- e))"

text \<open>
  A positive value is written \<open>m * 2 ^ e\<close>, first with a significand \<open>m\<close>
  below \<open>2 ^ 53\<close>, then with \<open>m\<close> from \<open>2 ^ 52\<close> on, unless the exponent
  reaches \<open>- 1074\<close>, the exponent of the subnormal numbers.
\<close>

function scale_down :: "rat \<Rightarrow> int \<Rightarrow> rat \<times> int" where
  "scale_down m e = (if 9007199254740992 \<le> m then scale_down (m / 2) (e + 1) else (m, e))"
  by pat_completeness auto
termination
proof (relation "measure (\<lambda>(m, e). nat \<lfloor>m\<rfloor>)")
  show "wf (measure (\<lambda>(m :: rat, e :: int). nat \<lfloor>m\<rfloor>))" by simp
next
  fix m :: rat and e :: int
  assume m: "9007199254740992 \<le> m"
  have "m < of_int \<lfloor>m\<rfloor> + 1" using floor_correct [of m] by simp
  with m have "m / 2 < of_int \<lfloor>m\<rfloor>" by simp
  then have "\<lfloor>m / 2\<rfloor> < \<lfloor>m\<rfloor>" by (simp add: floor_less_iff)
  moreover from m have "0 < \<lfloor>m\<rfloor>" by (simp add: less_floor_iff)
  ultimately show "((m / 2, e + 1), (m, e)) \<in> measure (\<lambda>(m, e). nat \<lfloor>m\<rfloor>)"
    by simp
qed

function scale_up :: "rat \<Rightarrow> int \<Rightarrow> rat \<times> int" where
  "scale_up m e = (if m < 4503599627370496 \<and> - 1074 < e then scale_up (m * 2) (e - 1) else (m, e))"
  by pat_completeness auto
termination
  by (relation "measure (\<lambda>(m, e). nat (e + 1074))") auto

declare scale_down.simps [simp del] scale_up.simps [simp del]

text \<open>The nearest integer, the even one of two that are equally near.\<close>

definition round_even :: "rat \<Rightarrow> int" where
  "round_even m =
     (let f = \<lfloor>m\<rfloor>; d = m - of_int f
      in if d < 1 / 2 then f
         else if 1 / 2 < d then f + 1
         else if even f then f else f + 1)"

text \<open>
  The double nearest to a rational. A value that rounds to \<open>2 ^ 1024\<close> or
  more in magnitude is an infinity.
\<close>

definition to_double :: "rat \<Rightarrow> double" where
  "to_double x =
     (if x = 0 then Num 0
      else (let (m0, e0) = scale_down \<bar>x\<bar> 0;
                (m, e) = scale_up m0 e0;
                y = of_int (round_even m) * pow2 e
            in if pow2 1024 \<le> y then (if 0 < x then PInf else NInf)
               else Num (if 0 < x then y else - y)))"

definition dneg :: "double \<Rightarrow> double" where
  "dneg a = (case a of Num x \<Rightarrow> Num (- x) | PInf \<Rightarrow> NInf | NInf \<Rightarrow> PInf | NaN \<Rightarrow> NaN)"

text \<open>\<^verbatim>\<open>a + b\<close> and \<^verbatim>\<open>a - b\<close>.\<close>

fun dadd :: "double \<Rightarrow> double \<Rightarrow> double" where
  "dadd (Num x) (Num y) = to_double (x + y)"
| "dadd NaN _ = NaN"
| "dadd _ NaN = NaN"
| "dadd PInf NInf = NaN"
| "dadd NInf PInf = NaN"
| "dadd PInf _ = PInf"
| "dadd NInf _ = NInf"
| "dadd _ PInf = PInf"
| "dadd _ NInf = NInf"

definition dsub :: "double \<Rightarrow> double \<Rightarrow> double" where
  "dsub a b = dadd a (dneg b)"

text \<open>\<^verbatim>\<open>a * b\<close>.\<close>

fun dmul :: "double \<Rightarrow> double \<Rightarrow> double" where
  "dmul (Num x) (Num y) = to_double (x * y)"
| "dmul NaN _ = NaN"
| "dmul _ NaN = NaN"
| "dmul (Num x) PInf = (if x = 0 then NaN else if 0 < x then PInf else NInf)"
| "dmul (Num x) NInf = (if x = 0 then NaN else if 0 < x then NInf else PInf)"
| "dmul PInf (Num y) = (if y = 0 then NaN else if 0 < y then PInf else NInf)"
| "dmul NInf (Num y) = (if y = 0 then NaN else if 0 < y then NInf else PInf)"
| "dmul PInf PInf = PInf"
| "dmul NInf NInf = PInf"
| "dmul PInf NInf = NInf"
| "dmul NInf PInf = NInf"

text \<open>
  \<^verbatim>\<open>a / b\<close>. Where the program divides, a zero divisor is a length or
  a square, the zero of positive sign.
\<close>

fun ddiv :: "double \<Rightarrow> double \<Rightarrow> double" where
  "ddiv (Num x) (Num y) =
     (if y = 0 then (if x = 0 then NaN else if 0 < x then PInf else NInf)
      else to_double (x / y))"
| "ddiv NaN _ = NaN"
| "ddiv _ NaN = NaN"
| "ddiv (Num x) PInf = Num 0"
| "ddiv (Num x) NInf = Num 0"
| "ddiv PInf (Num y) = (if 0 \<le> y then PInf else NInf)"
| "ddiv NInf (Num y) = (if 0 \<le> y then NInf else PInf)"
| "ddiv _ _ = NaN"

text \<open>\<^verbatim>\<open>Math.max(a, b)\<close>: NaN when an argument is NaN.\<close>

fun dmax :: "double \<Rightarrow> double \<Rightarrow> double" where
  "dmax (Num x) (Num y) = Num (max x y)"
| "dmax NaN _ = NaN"
| "dmax _ NaN = NaN"
| "dmax PInf _ = PInf"
| "dmax _ PInf = PInf"
| "dmax NInf b = b"
| "dmax a NInf = a"

text \<open>
  \<^verbatim>\<open>Math.pow(a, 2)\<close>: the engine computes the power with exponent 2 as
  the product \<^verbatim>\<open>a * a\<close>.
\<close>

definition dsquare :: "double \<Rightarrow> double" where
  "dsquare a = dmul a a"

text \<open>\<^verbatim>\<open>a > 0\<close> and \<^verbatim>\<open>a <= b\<close>; both are false when an argument is NaN.\<close>

definition dpositive :: "double \<Rightarrow> bool" where
  "dpositive a = (case a of Num x \<Rightarrow> 0 < x | PInf \<Rightarrow> True | _ \<Rightarrow> False)"

fun dle :: "double \<Rightarrow> double \<Rightarrow> bool" where
  "dle (Num x) (Num y) = (x \<le> y)"
| "dle NaN _ = False"
| "dle _ NaN = False"
| "dle NInf _ = True"
| "dle _ PInf = True"
| "dle _ _ = False"

subsection \<open>Selection\<close>

text \<open>
  The score of one result, in double-precision arithmetic. A confidence or a
  decimal constant is the double nearest to the rational that names it; a word
  count is a double as well. The mean of the word counts is \<^verbatim>\<open>0 / 0\<close>,
  NaN, when there is no chapter, and the normalised variance is
  \<^verbatim>\<open>0 / 0\<close> when every word count is 0; NaN then spreads through
  \<^verbatim>\<open>Math.max\<close> and the sums.
\<close>

definition score :: "DetectionResult \<Rightarrow> double" where
  "score result =
     (let s0 = dmul (to_double (result_confidence result)) (to_double (4 / 10));
          chapterCount = length (chapters result);
          s1 = (if chapterCount \<ge> 3 \<and> chapterCount \<le> 50 then dadd s0 (to_double (3 / 10))
                else if chapterCount > 50 then dsub s0 (to_double (2 / 10))
                else s0);
          wordCounts = map (\<lambda>ch. to_double (of_nat (wordCount ch))) (chapters result);
          avgWords = ddiv (foldl (\<lambda>sum count. dadd sum count) (Num 0) wordCounts)
                          (to_double (of_nat (length wordCounts)));
          variance = ddiv (foldl (\<lambda>sum count. dadd sum (dsquare (dsub count avgWords))) (Num 0) wordCounts)
                          (to_double (of_nat (length wordCounts)));
          consistency = dmax (Num 0) (dsub (Num 1) (ddiv variance (dmul avgWords avgWords)));
          s2 = dadd s1 (dmul consistency (to_double (2 / 10)));
          s3 = (if str_includes (method_name result) ''pattern''
                   \<or> str_includes (method_name result) ''semantic''
                then dadd s2 (to_double (1 / 10)) else s2)
      in s3)"

text \<open>
  \<^verbatim>\<open>scoredResults.sort((a, b) => b.score - a.score)\<close>. The sort is
  stable: \<open>b\<close> goes before \<open>a\<close> only when the comparator's result is
  positive. A comparator result that is NaN counts as 0; the order of a list
  with a NaN score among several is left to the implementation by ECMAScript,
  and the model gives the order of an insertion sort.
\<close>

definition compare_scores :: "double \<Rightarrow> double \<Rightarrow> double" where
  "compare_scores a b = dsub b a"

fun insert_scored :: "DetectionResult \<times> double \<Rightarrow> (DetectionResult \<times> double) list
    \<Rightarrow> (DetectionResult \<times> double) list" where
  "insert_scored a [] = [a]"
| "insert_scored a (b # bs) =
     (if dpositive (compare_scores (snd a) (snd b)) then b # insert_scored a bs else a # b # bs)"

definition sort_scored :: "(DetectionResult \<times> double) list \<Rightarrow> (DetectionResult \<times> double) list" where
  "sort_scored rs = foldr insert_scored rs []"

datatype detect_error = No_results | Text_required

text \<open>\<^verbatim>\<open>selectBestDetection\<close>: the first of the sorted results, with its score.\<close>

definition selectBestDetection :: "DetectionResult list \<Rightarrow> detect_error + DetectionResult \<times> double" where
  "selectBestDetection results =
     (if length results = 0 then Inl No_results
      else (case sort_scored (map (\<lambda>result. (result, score result)) results) of
              [] \<Rightarrow> Inl No_results
            | best # _ \<Rightarrow> Inr best))"

subsection \<open>Boundary optimization\<close>

text \<open>
  The inner loop of \<^verbatim>\<open>optimizeChapters\<close> for a chapter that is not
  the last: the first \<^verbatim>\<open>actualEnd\<close>, over the sentences from the
  middle one to the last but one, that passes the test.
\<close>

definition optimized_end :: "Chapter \<Rightarrow> int \<Rightarrow> string \<Rightarrow> int option" where
  "optimized_end ch nextChapterStart fullText =
     (let boundaryText = substring fullText (endIndex ch - 200) (nextChapterStart + 200);
          sentences = split_re re_sentence_end boundaryText;
          actualEnds = map (\<lambda>j. endIndex ch - 200
                                 + (indexOf boundaryText (sentences ! j) + int (length (sentences ! j)) + 1))
                           [length sentences div 2 ..< length sentences - 1]
      in find (\<lambda>actualEnd. actualEnd > startIndex ch + 500 \<and> actualEnd < nextChapterStart - 100)
              actualEnds)"

definition optimize_one :: "Chapter list \<Rightarrow> string \<Rightarrow> nat \<Rightarrow> Chapter" where
  "optimize_one chs fullText i =
     (let ch = chs ! i;
          moved = (if i + 1 < length chs then optimized_end ch (startIndex (chs ! (i + 1))) fullText
                   else None);
          optimizedStart = startIndex ch;
          optimizedEnd = (case moved of None \<Rightarrow> endIndex ch | Some e \<Rightarrow> e);
          optimizedContent = (case moved of
                                None \<Rightarrow> content ch
                              | Some e \<Rightarrow> trim (substring fullText optimizedStart e))
      in ch\<lparr> content := optimizedContent, startIndex := optimizedStart, endIndex := optimizedEnd,
             wordCount := count_words optimizedContent \<rparr>)"

definition optimizeChapters :: "Chapter list \<Rightarrow> string \<Rightarrow> Chapter list" where
  "optimizeChapters chs fullText = map (optimize_one chs fullText) [0..<length chs]"

subsection \<open>The stage\<close>

text \<open>
  The request handler on a cache miss, for a request with a book id and a book
  that exists: the chapters it returns and hands to the chapter store.
\<close>

definition detect_chapters :: "string \<Rightarrow> book \<Rightarrow> detect_error + Chapter list" where
  "detect_chapters text0 bk =
     (if text0 = [] then Inl Text_required
      else (case selectBestDetection (runParallelDetection text0 bk) of
              Inl e \<Rightarrow> Inl e
            | Inr (bestResult, s) \<Rightarrow> Inr (optimizeChapters (chapters bestResult) text0)))"

section \<open>The chapter store\<close>

record chapter_metadata =
  detection_method :: string
  detection_confidence :: rat
  md_boundary_strength :: "rat option"
  start_index :: int
  end_index :: int
  stored_at :: int
  processing_version :: string

record ChapterForDB =
  book_id :: nat
  chapter_number :: nat
  part_number :: nat
  db_title :: string
  db_content :: string
  summary :: "string option"
  word_count :: nat
  reading_time_minutes :: nat
  highlight_quotes :: "string list"
  enhancement_status :: enhancement_status
  metadata :: chapter_metadata

text \<open>
  \<^verbatim>\<open>validateChapters\<close>, on chapters whose fields have their declared
  types. \<^verbatim>\<open>x || d\<close> is \<open>d\<close> when \<open>x\<close> is 0.
\<close>

definition validate_one :: "Chapter \<Rightarrow> Chapter list" where
  "validate_one ch =
     (if title ch = [] \<or> content ch = [] then []
      else if length (content ch) < 100 then []
      else (let actualWordCount = count_words (content ch)
            in if actualWordCount < 50 then []
               else (let sanitizedTitle = (if length (title ch) > 200
                                           then substring (title ch) 0 197 @ ''...''
                                           else title ch)
                     in [ch\<lparr> title := sanitizedTitle, wordCount := actualWordCount,
                             startIndex := max 0 (startIndex ch),
                             endIndex := max (startIndex ch)
                                             (if endIndex ch = 0 then int (length (content ch))
                                              else endIndex ch),
                             confidence := max 0 (min 1 (if confidence ch = 0 then 5 / 10
                                                         else confidence ch)) \<rparr>])))"

definition validateChapters :: "Chapter list \<Rightarrow> Chapter list" where
  "validateChapters chs = concat (map validate_one chs)"

text \<open>\<^verbatim>\<open>Math.ceil(chapter.wordCount / 200)\<close>.\<close>

definition readingTime :: "nat \<Rightarrow> nat" where
  "readingTime w = nat \<lceil>(of_nat w :: rat) / 200\<rceil>"

text \<open>\<^verbatim>\<open>extractPotentialQuotes\<close>; the pattern is \<^verbatim>\<open>/"([^"]{20,200})"/g\<close>.\<close>

definition double_quote :: char where
  "double_quote = CHR 0x22"

definition re_quoted :: regex where
  "re_quoted =
     seqs [lit [double_quote], Group 1 (Rep 20 (Some 200) (Atom (\<lambda>c. c \<noteq> double_quote))),
           lit [double_quote]]"

definition importantPhrases :: "string list" where
  "importantPhrases =
     [''The key is'', ''It is important'', ''Remember that'', ''The main point'',
      ''In conclusion'', ''To summarize'', ''Most importantly'', ''This means'']"

fun quote_loop :: "string list \<Rightarrow> string list \<Rightarrow> string list" where
  "quote_loop quotes [] = quotes"
| "quote_loop quotes (sentence # sentences) =
     (let trimmed = trim sentence;
          quotes' = (if length trimmed > 50 \<and> length trimmed < 300
                        \<and> (\<exists>phrase\<in>set importantPhrases.
                               str_includes (toLowerCase trimmed) (toLowerCase phrase))
                     then quotes @ [trimmed] else quotes)
      in if length quotes' \<ge> 5 then quotes' else quote_loop quotes' sentences)"

definition extractPotentialQuotes :: "string \<Rightarrow> string list" where
  "extractPotentialQuotes body =
     (let quotedMatches = match_all re_quoted body;
          quotes = map (replace_all (lit [double_quote]) []) (take 3 quotedMatches)
      in take 5 (quote_loop quotes (split_re re_sentence_end body)))"

text \<open>\<^verbatim>\<open>prepareChaptersForDB\<close>, called at time \<open>now\<close>.\<close>

definition prepare_one :: "nat \<Rightarrow> int \<Rightarrow> nat \<times> Chapter \<Rightarrow> ChapterForDB" where
  "prepare_one bookId now ic =
     (let i = fst ic; ch = snd ic
      in \<lparr> book_id = bookId, chapter_number = i + 1, part_number = 1,
           db_title = title ch, db_content = content ch, summary = None,
           word_count = wordCount ch, reading_time_minutes = readingTime (wordCount ch),
           highlight_quotes = extractPotentialQuotes (content ch),
           enhancement_status = EPending,
           metadata = \<lparr> detection_method = detectionMethod ch,
                        detection_confidence = confidence ch,
                        md_boundary_strength = boundary_strength ch,
                        start_index = startIndex ch, end_index = endIndex ch,
                        stored_at = now, processing_version = ''v2_optimized'' \<rparr> \<rparr>)"

definition prepareChaptersForDB :: "nat \<Rightarrow> int \<Rightarrow> Chapter list \<Rightarrow> ChapterForDB list" where
  "prepareChaptersForDB bookId now chs = map (prepare_one bookId now) (enumerate 0 chs)"

text \<open>
  \<^verbatim>\<open>insertChaptersInBatches\<close>: batches of 10. \<open>row_ok\<close> says which rows
  the table accepts; an insert of several rows fails as a whole when one of
  them is refused, and the rows of a failed batch are then inserted one by one.
\<close>

function insert_batches :: "(ChapterForDB \<Rightarrow> bool) \<Rightarrow> ChapterForDB list \<Rightarrow> nat \<Rightarrow> ChapterForDB list" where
  "insert_batches row_ok rows i =
     (if i < length rows
      then (let batch = slice rows i (i + 10)
            in (if \<forall>r\<in>set batch. row_ok r then batch else filter row_ok batch)
               @ insert_batches row_ok rows (i + 10))
      else [])"
  by pat_completeness auto
termination
  by (relation "measure (\<lambda>(row_ok, rows, i). length rows - i)") auto

definition insertChaptersInBatches :: "(ChapterForDB \<Rightarrow> bool) \<Rightarrow> ChapterForDB list \<Rightarrow> ChapterForDB list" where
  "insertChaptersInBatches row_ok rows = insert_batches row_ok rows 0"

record BookStats =
  totalWordCount :: nat
  totalReadingTime :: nat
  averageWordsPerChapter :: "int option"
  chapterCount :: nat

text \<open>
  \<^verbatim>\<open>calculateBookStats\<close>. The average is
  \<^verbatim>\<open>Math.round(totalWordCount / chapters.length)\<close>, NaN (\<open>None\<close>) for
  no chapters.
\<close>

definition calculateBookStats :: "Chapter list \<Rightarrow> BookStats" where
  "calculateBookStats chs =
     (let total = foldl (\<lambda>sum ch. sum + wordCount ch) 0 chs;
          reading = foldl (\<lambda>sum ch. sum + readingTime (wordCount ch)) 0 chs
      in \<lparr> totalWordCount = total, totalReadingTime = reading,
           averageWordsPerChapter =
             (if chs = [] then None
              else Some \<lfloor>(of_nat total :: rat) / of_nat (length chs) + 1 / 2\<rfloor>),
           chapterCount = length chs \<rparr>)"

text \<open>
  \<^verbatim>\<open>updateBookCompletionStatus\<close>: the update of the row of
  \<^verbatim>\<open>books\<close> with this id. \<open>update_ok\<close> is whether the store took
  the update; an error is logged and changes nothing.
\<close>

definition updateBookCompletionStatus :: "bool \<Rightarrow> nat \<Rightarrow> BookStats \<Rightarrow> book_row list \<Rightarrow> book_row list" where
  "updateBookCompletionStatus update_ok bookId stats books =
     (if \<not> update_ok then books
      else map (\<lambda>b. if bk_id b = bookId
                     then b\<lparr> bk_processing_status := PCompleted,
                            bk_total_word_count := Some (totalWordCount stats),
                            bk_estimated_total_reading_time := Some (totalReadingTime stats),
                            bk_enhancement_status := Some EPending \<rparr>
                     else b) books)"

record StorageResult =
  storedChapters :: nat
  sr_totalWordCount :: nat
  sr_totalReadingTime :: nat

datatype store_error = No_valid_chapters

text \<open>
  The request handler of the chapter store, for a request with a book id and
  an array of chapters: the rows it inserted, the table \<^verbatim>\<open>books\<close>
  after it, and its answer. An error leaves the book marked as failed.
\<close>

definition store_chapters ::
  "(ChapterForDB \<Rightarrow> bool) \<Rightarrow> bool \<Rightarrow> int \<Rightarrow> nat \<Rightarrow> Chapter list \<Rightarrow> book_row list
     \<Rightarrow> store_error \<times> book_row list + ChapterForDB list \<times> book_row list \<times> StorageResult" where
  "store_chapters row_ok update_ok now bookId chs books =
     (let validatedChapters = validateChapters chs
      in if length validatedChapters = 0
         then Inl (No_valid_chapters,
                   map (\<lambda>b. if bk_id b = bookId then b\<lparr> bk_processing_status := PFailed \<rparr> else b) books)
         else (let chaptersForDB = prepareChaptersForDB bookId now validatedChapters;
                   insertedChapters = insertChaptersInBatches row_ok chaptersForDB;
                   stats = calculateBookStats validatedChapters
               in Inr (insertedChapters,
                       updateBookCompletionStatus update_ok bookId stats books,
                       \<lparr> storedChapters = length insertedChapters,
                         sr_totalWordCount = totalWordCount stats,
                         sr_totalReadingTime = totalReadingTime stats \<rparr>)))"

section \<open>Notions used in the statements\<close>

text \<open>A pattern tier qualifies on a text when it matched at least 2 lines.\<close>

definition qualifies :: "string \<Rightarrow> pattern \<Rightarrow> bool" where
  "qualifies text0 p \<longleftrightarrow> 2 \<le> length (line_matches p text0)"

text \<open>The end offset of the chapter that starts at the i-th match.\<close>

definition chapter_end :: "string \<Rightarrow> line_match list \<Rightarrow> nat \<Rightarrow> int" where
  "chapter_end text0 ms i =
     (if i + 1 < length ms then match_index (ms ! (i + 1)) else int (length text0))"

text \<open>
  The score as the specification words it, computed in double-precision
  arithmetic: the mean and the variance of the chapter word counts, summed from
  the left.
\<close>

definition dsum :: "double list \<Rightarrow> double" where
  "dsum ds = foldl dadd (Num 0) ds"

definition mean :: "double list \<Rightarrow> double" where
  "mean ws = ddiv (dsum ws) (to_double (of_nat (length ws)))"

definition variance :: "double list \<Rightarrow> double" where
  "variance ws = ddiv (dsum (map (\<lambda>w. dsquare (dsub w (mean ws))) ws)) (to_double (of_nat (length ws)))"

definition word_counts :: "DetectionResult \<Rightarrow> double list" where
  "word_counts r = map (\<lambda>ch. to_double (of_nat (wordCount ch))) (chapters r)"

definition spec_score :: "DetectionResult \<Rightarrow> double" where
  "spec_score r =
     (let base = dmul (to_double (4 / 10)) (to_double (result_confidence r));
          counted = (if 3 \<le> length (chapters r) \<and> length (chapters r) \<le> 50
                     then dadd base (to_double (3 / 10))
                     else if length (chapters r) > 50 then dsub base (to_double (2 / 10))
                     else base);
          consistent = dadd counted
                         (dmul (to_double (2 / 10))
                            (dmax (Num 0)
                               (dsub (Num 1) (ddiv (variance (word_counts r)) (dsquare (mean (word_counts r)))))));
          named = (if str_includes (method_name r) ''pattern'' \<or> str_includes (method_name r) ''semantic''
                   then dadd consistent (to_double (1 / 10)) else consistent)
      in named)"

text \<open>
  The same score in exact arithmetic, as a formula over the rationals reads.
\<close>

definition exact_mean :: "nat list \<Rightarrow> rat" where
  "exact_mean ws = of_nat (sum_list ws) / of_nat (length ws)"

definition exact_variance :: "nat list \<Rightarrow> rat" where
  "exact_variance ws = (\<Sum>w\<leftarrow>ws. (of_nat w - exact_mean ws) ^ 2) / of_nat (length ws)"

definition exact_score :: "DetectionResult \<Rightarrow> rat" where
  "exact_score r =
     (4 / 10) * result_confidence r
     + (if 3 \<le> length (chapters r) \<and> length (chapters r) \<le> 50 then 3 / 10
        else if length (chapters r) > 50 then - (2 / 10) else 0)
     + (2 / 10) * max 0 (1 - exact_variance (map wordCount (chapters r))
                              / (exact_mean (map wordCount (chapters r))) ^ 2)
     + (if str_includes (method_name r) ''pattern'' \<or> str_includes (method_name r) ''semantic''
        then 1 / 10 else 0)"

text \<open>
  A double that double-precision arithmetic can produce: a finite one is a
  multiple of \<open>2 ^ (- 1074)\<close>, the least positive double.
\<close>

definition representable :: "double \<Rightarrow> bool" where
  "representable a = (case a of Num x \<Rightarrow> x / pow2 (- 1074) \<in> \<int> | _ \<Rightarrow> True)"

text \<open>The head of a list of scored results has the highest score.\<close>

definition tops :: "(DetectionResult \<times> double) list \<Rightarrow> bool" where
  "tops bs \<longleftrightarrow> (case bs of [] \<Rightarrow> True | b # _ \<Rightarrow> list_all (\<lambda>x. dle (snd x) (snd b)) bs)"

text \<open>The four strategy results of a text.\<close>

definition strategy_results :: "string \<Rightarrow> book \<Rightarrow> DetectionResult list" where
  "strategy_results text0 bk =
     [detectPatternBasedChapters text0, detectStructuralChapters text0,
      detectSemanticChapters text0 (book_title bk), detectAdaptiveChapters text0 bk]"

section \<open>Concrete queues, caches and databases\<close>

text \<open>
  Two jobs enqueued through \<^verbatim>\<open>enqueue_job\<close>: job 1 with priority 1,
  then job 2 with priority 5.
\<close>

definition two_jobs :: "processing_job list" where
  "two_jobs = enqueue_job 1 2 8 Extract_text None 5 None (enqueue_job 0 1 7 Extract_text None 1 None [])"

text \<open>Three cache entries, read at day 1000.\<close>

definition fresh_unused :: cache_entry where
  "fresh_unused = \<lparr> cache_key = ''k1'', cache_type = Text_extraction, input_hash = ''h1'',
     output_data = ''{}'', file_size = Some 4096, hit_count = Some 0,
     cache_created_at = days 1000, last_accessed_at = days 1000 \<rparr>"

definition old_popular :: cache_entry where
  "old_popular = \<lparr> cache_key = ''k2'', cache_type = Chapter_detection, input_hash = ''h2'',
     output_data = ''{}'', file_size = Some 1024, hit_count = Some 50,
     cache_created_at = days 900, last_accessed_at = days 999 \<rparr>"

definition old_unused :: cache_entry where
  "old_unused = \<lparr> cache_key = ''k3'', cache_type = Chapter_detection, input_hash = ''h3'',
     output_data = ''{}'', file_size = None, hit_count = Some 1,
     cache_created_at = days 900, last_accessed_at = days 900 \<rparr>"

text \<open>A book with two summarised chapters and one failed chapter, and a book whose chapter is pending.\<close>

definition book_in_progress :: "nat \<Rightarrow> book_row" where
  "book_in_progress n =
     \<lparr> bk_id = n, bk_processing_status = PCompleted, bk_total_word_count = Some 1000,
       bk_estimated_total_reading_time = Some 5, bk_enhancement_status = Some EProcessing \<rparr>"

definition mixed_db :: database where
  "mixed_db = \<lparr> chapters_tbl =
       [\<lparr> ch_book_id = 1, ch_enhancement_status = Some ECompleted \<rparr>,
        \<lparr> ch_book_id = 1, ch_enhancement_status = Some ECompleted \<rparr>,
        \<lparr> ch_book_id = 1, ch_enhancement_status = Some EFailed \<rparr>,
        \<lparr> ch_book_id = 2, ch_enhancement_status = Some EPending \<rparr>],
     books_tbl = [book_in_progress 1, book_in_progress 2] \<rparr>"

text \<open>
  A request to the chapter store with a chapter of 100 characters in 50 words
  (51 pieces for \<^verbatim>\<open>split(/\s+/)\<close>, for the text ends with a space) and a
  chapter that is too short.
\<close>

definition fifty_words :: string where
  "fifty_words = concat (replicate 50 ''a '')"

definition sample_chapters :: "Chapter list" where
  "sample_chapters =
     [\<lparr> title = ''One'', content = fifty_words, wordCount = 7, startIndex = 0, endIndex = 100,
        detectionMethod = ''pattern_based'', confidence = 95 / 100, boundary_strength = None \<rparr>,
      \<lparr> title = ''Short'', content = ''too short'', wordCount = 2, startIndex = 100, endIndex = 109,
        detectionMethod = ''pattern_based'', confidence = 95 / 100, boundary_strength = None \<rparr>]"

definition stored_sample :: "ChapterForDB list \<times> book_row list \<times> StorageResult" where
  "stored_sample = projr (store_chapters (\<lambda>r. True) True 0 1 sample_chapters [book_in_progress 1])"

text \<open>
  A text of 720 characters: 500 letters, 50 short sentences, 20 letters; and
  two chapters over it that meet at offset 700. \<open>boundary_sample\<close> is the
  text from offset 500 on.
\<close>

definition moved_text :: string where
  "moved_text = replicate 500 (CHR ''x'') @ concat (replicate 50 ''ab. '') @ replicate 20 (CHR ''y'')"

definition moved_chapters :: "Chapter list" where
  "moved_chapters =
     [\<lparr> title = ''First'', content = take 700 moved_text, wordCount = 51, startIndex = 0,
        endIndex = 700, detectionMethod = ''pattern_based'', confidence = 95 / 100,
        boundary_strength = Some (1 / 2) \<rparr>,
      \<lparr> title = ''Second'', content = drop 700 moved_text, wordCount = 1, startIndex = 700,
        endIndex = 720, detectionMethod = ''pattern_based'', confidence = 95 / 100,
        boundary_strength = Some (1 / 2) \<rparr>]"

definition boundary_sample :: string where
  "boundary_sample = concat (replicate 50 ''ab. '') @ replicate 20 (CHR ''y'')"

text \<open>
  A text whose marker lines repeat: a short list of two chapter headings, then
  the two chapters, each headed by its line and holding 600 letters. Below it,
  the matches of the first pattern on that text, as found and as sorted.
\<close>

definition repeated_markers :: string where
  "repeated_markers =
     ''Chapter 1'' @ newline # ''Chapter 2'' @ newline # ''Chapter 1'' @ newline
       # replicate 600 (CHR ''a'') @ newline # ''Chapter 2'' @ newline # replicate 600 (CHR ''b'')"

definition repeated_matches :: "line_match list" where
  "repeated_matches =
     [\<lparr> match_index = 0, match_title = ''Chapter 1'', match_lineNum = 0, match_confidence = 95 / 100 \<rparr>,
      \<lparr> match_index = 10, match_title = ''Chapter 2'', match_lineNum = 1, match_confidence = 95 / 100 \<rparr>,
      \<lparr> match_index = 0, match_title = ''Chapter 1'', match_lineNum = 2, match_confidence = 95 / 100 \<rparr>,
      \<lparr> match_index = 10, match_title = ''Chapter 2'', match_lineNum = 4, match_confidence = 95 / 100 \<rparr>]"

definition ordered_matches :: "line_match list" where
  "ordered_matches = [repeated_matches ! 0, repeated_matches ! 2, repeated_matches ! 1, repeated_matches ! 3]"

text \<open>Two detection results, one with even chapter sizes, and a book with a very short text.\<close>

definition plain_chapter :: "nat \<Rightarrow> Chapter" where
  "plain_chapter w =
     \<lparr> title = ''t'', content = ''c'', wordCount = w, startIndex = 0, endIndex = 1,
       detectionMethod = ''m'', confidence = 1 / 2, boundary_strength = None \<rparr>"

definition even_result :: DetectionResult where
  "even_result = \<lparr> chapters = [plain_chapter 100, plain_chapter 100, plain_chapter 100],
                   method_name = ''pattern_based'', result_confidence = 95 / 100 \<rparr>"

definition uneven_result :: DetectionResult where
  "uneven_result = \<lparr> chapters = [plain_chapter 100, plain_chapter 300],
                     method_name = ''adaptive_short_form'', result_confidence = 8 / 10 \<rparr>"

text \<open>
  Two results of one chapter each: a pattern result whose confidence is the
  double next above 0.75, and a structural result of confidence 1.
\<close>

definition close_pattern :: DetectionResult where
  "close_pattern = \<lparr> chapters = [plain_chapter 10], method_name = ''pattern_based'',
                     result_confidence = 6755399441055745 / 9007199254740992 \<rparr>"

definition structural_one :: DetectionResult where
  "structural_one = \<lparr> chapters = [plain_chapter 10], method_name = ''structural'',
                      result_confidence = 1 \<rparr>"

definition short_book :: book where
  "short_book = \<lparr> book_title = ''Notes'', book_genre = None \<rparr>"

definition empty_fallback :: DetectionResult where
  "empty_fallback = \<lparr> chapters = [], method_name = ''fallback_chunking'', result_confidence = 3 / 10 \<rparr>"

definition one_word :: string where
  "one_word = replicate 101 (CHR ''a'')"

text \<open>What the PDF capability returned for a page that holds only its page number, and for a page of one line.\<close>

definition page_number_only :: pdf_result where
  "page_number_only = \<lparr> pdf_text = ''42'', pdf_totalPages = None \<rparr>"

definition one_line_pdf :: pdf_result where
  "one_line_pdf = \<lparr> pdf_text = ''Hello'', pdf_totalPages = Some 3 \<rparr>"

section \<open>Properties of the job queue\<close>

text \<open>The rows that the \<^verbatim>\<open>WHERE\<close> clause keeps.\<close>

lemma claimable_iff:
  "claimable tbl j \<longleftrightarrow>
     job_status j = JPending
     \<and> (job_depends_on_job j = None \<or> dep_status tbl j = Some JCompleted)
     \<and> (\<exists>r m. job_retry_count j = Some r \<and> job_max_retries j = Some m \<and> r < m)"
proof -
  have a: "sql_and x y = Some True \<longleftrightarrow> x = Some True \<and> y = Some True" for x y
    by (cases "(x, y)" rule: sql_and.cases) auto
  have o: "sql_or x y = Some True \<longleftrightarrow> x = Some True \<or> y = Some True" for x y
    by (cases "(x, y)" rule: sql_or.cases) auto
  show ?thesis
    by (auto simp: claimable_def where_clause_def a o split: option.splits)
qed

lemma two_jobs_claimable: "filter (claimable two_jobs) two_jobs = two_jobs"
  by (simp add: claimable_iff two_jobs_def enqueue_job_def)

text \<open>
  Claim C2 on \<^verbatim>\<open>get_next_job\<close>. The row lock of the inner
  \<^verbatim>\<open>SELECT\<close> covers \<^verbatim>\<open>dep\<close>, the nullable side of the
  \<^verbatim>\<open>LEFT JOIN\<close>, and the \<^verbatim>\<open>WHERE\<close> clause keeps rows without
  a dependency, so the lock is refused: every call raises, returns no job and
  leaves the table as it is. On the queue of two pending jobs without
  dependency, where the job of priority 1 is to be selected, the call raises.
\<close>

theorem get_next_job_raises:
  "get_next_job now tbl = Inl Feature_not_supported
   \<and> filter (claimable two_jobs) two_jobs = two_jobs
   \<and> get_next_job 10 two_jobs = Inl Feature_not_supported"
proof -
  have "lock_refused"
    by (simp add: lock_refused_def locked_relations_def for_update_of_def from_clause_def
        nullable_side_def where_clause_def)
  then show ?thesis by (simp add: get_next_job_def two_jobs_claimable)
qed

section \<open>Properties of the cache eviction\<close>

text \<open>
  The SQL function deletes exactly the entries that are both older than 30 days
  and hit fewer than twice.
\<close>

lemma cleanup_old_cache_exact:
  "set (fst (cleanup_old_cache now tbl))
     = {e \<in> set tbl. \<not> (cache_created_at e < now - days 30 \<and> sql_lt (hit_count e) 2)}"
  "snd (cleanup_old_cache now tbl)
     = length (filter (\<lambda>e. cache_created_at e < now - days 30 \<and> sql_lt (hit_count e) 2) tbl)"
  by (auto simp: cleanup_old_cache_def Let_def)

lemma cleanup_old_cache_days_default: "cleanup_old_cache_days 30 now tbl = cleanup_old_cache now tbl"
  by (simp add: cleanup_old_cache_days_def cleanup_old_cache_def)

text \<open>
  Claim C5 on \<^verbatim>\<open>CacheManager.cleanup\<close>: its filter is a disjunction, so
  it deletes an entry created at the moment of the call (never hit) and an
  entry 100 days old with 50 hits; the SQL function \<^verbatim>\<open>cleanup_old_cache\<close>
  retains both and deletes only the entry that is old and rarely hit.
\<close>

theorem CacheManager_cleanup_deletes_fresh_and_popular:
  "CacheManager_cleanup (days 1000) [fresh_unused, old_popular, old_unused] = ([], 3, 5120)
   \<and> cleanup_old_cache (days 1000) [fresh_unused, old_popular, old_unused]
       = ([fresh_unused, old_popular], 1)"
  by (simp add: CacheManager_cleanup_def cleanup_old_cache_def fresh_unused_def old_popular_def
      old_unused_def days_def sql_lt_def lowAccessThreshold_def oldEntryThreshold_def
      cleanupBatchSize_def Let_def)

section \<open>Properties of the aggregate enhancement status\<close>

lemma foldl_count_step:
  "(case foldl count_step acc sts k of None \<Rightarrow> 0 | Some c \<Rightarrow> c)
     = (case acc k of None \<Rightarrow> 0 | Some c \<Rightarrow> c) + length (filter (\<lambda>s. s = k) sts)"
  by (induction sts arbitrary: acc) (auto simp: count_step_def)

lemma count_or_zero_status_counts:
  "count_or_zero (status_counts sts) st = length (filter (\<lambda>s. s = Some st) sts)"
  using foldl_count_step [of Map.empty sts "Some st"]
  by (simp add: count_or_zero_def status_counts_def)

lemma length_filter_eq_length: "length (filter P xs) = length xs \<longleftrightarrow> (\<forall>x\<in>set xs. P x)"
proof -
  have "length (filter P xs) + length (filter (\<lambda>x. \<not> P x) xs) = length xs"
    by (rule sum_length_filter_compl)
  then have "length (filter P xs) = length xs \<longleftrightarrow> filter (\<lambda>x. \<not> P x) xs = []"
    by auto
  then show ?thesis by (simp add: filter_empty_conv)
qed

lemma two_filters_length:
  "(\<And>x. \<not> (P x \<and> Q x)) \<Longrightarrow>
     length (filter P xs) + length (filter Q xs) = length xs \<longleftrightarrow> (\<forall>x\<in>set xs. P x \<or> Q x)"
proof -
  assume d: "\<And>x. \<not> (P x \<and> Q x)"
  have "length (filter P xs) + length (filter Q xs) = length (filter (\<lambda>x. P x \<or> Q x) xs)"
    using d by (induction xs) auto
  then show ?thesis by (simp add: length_filter_eq_length)
qed

lemma overallStatus_cases:
  "overallStatus sts =
     (if \<forall>s\<in>set sts. s = Some ECompleted then ECompleted
      else if \<forall>s\<in>set sts. s = Some ECompleted \<or> s = Some EFailed
           then (if length (filter (\<lambda>s. s = Some ECompleted) sts) > length (filter (\<lambda>s. s = Some EFailed) sts)
                 then ECompleted else EFailed)
      else EProcessing)"
proof -
  have a: "length (filter (\<lambda>s. s = Some ECompleted) sts) = length sts \<longleftrightarrow> (\<forall>s\<in>set sts. s = Some ECompleted)"
    by (rule length_filter_eq_length)
  have b: "length (filter (\<lambda>s. s = Some ECompleted) sts) + length (filter (\<lambda>s. s = Some EFailed) sts) = length sts
      \<longleftrightarrow> (\<forall>s\<in>set sts. s = Some ECompleted \<or> s = Some EFailed)"
    by (rule two_filters_length) simp
  show ?thesis
    unfolding overallStatus_def Let_def count_or_zero_status_counts a b by simp
qed

text \<open>
  Claim C3, as amended. The status written onto the document is: completed if
  every chapter of the document is completed, or if every chapter is completed
  or failed and the completed chapters outnumber the failed ones; failed if
  every chapter is completed or failed, not all are completed, and the failed
  chapters are at least as many as the completed ones; processing when some
  chapter is neither completed nor failed.
\<close>

theorem updateBookEnhancementStatus_written:
  assumes "b \<in> set (books_tbl (updateBookEnhancementStatus True bookId db))" and "bk_id b = bookId"
  shows "bk_enhancement_status b =
     Some (let sts = map ch_enhancement_status (filter (\<lambda>c. ch_book_id c = bookId) (chapters_tbl db))
           in if \<forall>s\<in>set sts. s = Some ECompleted then ECompleted
              else if \<forall>s\<in>set sts. s = Some ECompleted \<or> s = Some EFailed
                   then (if length (filter (\<lambda>s. s = Some ECompleted) sts)
                             > length (filter (\<lambda>s. s = Some EFailed) sts)
                         then ECompleted else EFailed)
              else EProcessing)"
proof -
  define sts where "sts = map ch_enhancement_status (filter (\<lambda>c. ch_book_id c = bookId) (chapters_tbl db))"
  from assms obtain x where "b = x\<lparr> bk_enhancement_status := Some (overallStatus sts) \<rparr>"
    by (auto simp: updateBookEnhancementStatus_def Let_def sts_def)
  then have "bk_enhancement_status b
      = bk_enhancement_status (x\<lparr> bk_enhancement_status := Some (overallStatus sts) \<rparr>)"
    by (rule arg_cong)
  then have "bk_enhancement_status b = Some (overallStatus sts)" by simp
  then show ?thesis
    unfolding overallStatus_cases sts_def Let_def by simp
qed

theorem updateBookEnhancementStatus_written_witness:
  "(book_in_progress 1)\<lparr> bk_enhancement_status := Some ECompleted \<rparr>
      \<in> set (books_tbl (updateBookEnhancementStatus True 1 mixed_db))
   \<and> (book_in_progress 2)\<lparr> bk_enhancement_status := Some EProcessing \<rparr>
      \<in> set (books_tbl (updateBookEnhancementStatus True 2 mixed_db))"
  using updateBookEnhancementStatus_written
    [of "(book_in_progress 1)\<lparr> bk_enhancement_status := Some ECompleted \<rparr>" 1 mixed_db]
  by (simp add: updateBookEnhancementStatus_def mixed_db_def book_in_progress_def Let_def
      overallStatus_cases)

text \<open>
  Claim C3 as stated fails: with two completed chapters and one failed chapter
  (all terminal, failures not outnumbering successes) the status is completed,
  not processing; with one of each it is failed.
\<close>

theorem overallStatus_majority_counterexample:
  "overallStatus [Some ECompleted, Some ECompleted, Some EFailed] = ECompleted
   \<and> overallStatus [Some ECompleted, Some EFailed] = EFailed"
  by (simp add: overallStatus_cases)

section \<open>Properties of the text-extraction stage\<close>

text \<open>A match ends inside the input it started in, and a replacement adds only the characters of the replacement text.\<close>

lemma matches_remaining:
  "y \<in> set (matches r st) \<Longrightarrow> set (remaining y) \<subseteq> set (remaining st)"
proof (induction r st arbitrary: y rule: matches.induct)
  case (1 p st)
  then show ?case
    by (auto simp: remaining_def split: list.splits if_splits) (metis list.set_intros(2))
next
  case (2 st)
  then show ?case by simp
next
  case (3 a b st)
  from 3(3) obtain x where x: "x \<in> set (matches a st)" "y \<in> set (matches b x)" by auto
  from 3(1) [OF x(1)] 3(2) [OF x(1) x(2)] show ?case by blast
next
  case (4 a b st)
  from 4(3) have "y \<in> set (matches a st) \<or> y \<in> set (matches b st)" by simp
  with 4(1) 4(2) show ?case by blast
next
  case (5 n r st)
  from 5(2) obtain x where x: "x \<in> set (matches r st)" "remaining y = remaining x"
    by (auto simp: remaining_def)
  from 5(1) [OF x(1)] x(2) show ?case by simp
next
  case (6 st)
  then show ?case by (auto split: option.splits if_splits)
next
  case (7 st)
  then show ?case by (auto split: list.splits if_splits)
next
  case (8 st)
  then show ?case by (auto split: option.splits)
next
  case (9 st)
  then show ?case by (auto split: list.splits)
next
  case (10 lo hi r st)
  show ?case
  proof (cases "hi = Some 0")
    case True
    with 10(3) show ?thesis by simp
  next
    case False
    define xr where "xr = (previous st, remaining st, left st,
                   filter (\<lambda>(k, v). k \<notin> set (groups_of r)) (captures st))"
    have rx: "remaining xr = remaining st" by (simp add: xr_def remaining_def)
    define again where "again = concat (map (\<lambda>y. if lo = 0 \<and> \<not> left y < left st
                                         then []
                                         else matches (Rep (lo - 1) (map_option (\<lambda>k. k - 1) hi) r) y)
                                 (matches r xr))"
    have m: "matches (Rep lo hi r) st = (if lo \<noteq> 0 then again else again @ [st])"
      using False by (simp add: Let_def xr_def again_def)
    have ag: "set (remaining y) \<subseteq> set (remaining st)" if "y \<in> set again"
    proof -
      from that obtain x where x: "x \<in> set (matches r xr)" "\<not> (lo = 0 \<and> \<not> left x < left st)"
        "y \<in> set (matches (Rep (lo - 1) (map_option (\<lambda>k. k - 1) hi) r) x)"
        by (auto simp: again_def simp del: matches.simps split: if_splits)
      from 10(1) [OF False xr_def x(1)] rx have "set (remaining x) \<subseteq> set (remaining st)" by simp
      moreover from 10(2) [OF False xr_def x(1) x(2) x(3)]
      have "set (remaining y) \<subseteq> set (remaining x)" .
      ultimately show ?thesis by blast
    qed
    from 10(3) m have "y \<in> set again \<or> y = st" by (auto split: if_splits)
    with ag show ?thesis by auto
  qed
qed

lemma set_replace_from: "set (replace_from r rep prev s n) \<subseteq> set s \<union> set rep"
proof (induction r rep prev s n rule: replace_from.induct)
  case (1 r rep prev s n)
  show ?case
  proof (cases "matches r (prev, s, n, [])")
    case Nil
    show ?thesis
    proof (cases s)
      case Nil': Nil
      with Nil show ?thesis by (subst replace_from.simps) simp
    next
      case (Cons c cs)
      from 1(1) [OF Nil Cons] Nil Cons show ?thesis
        by (subst replace_from.simps) auto
    qed
  next
    case (Cons y ys)
    then have "y \<in> set (matches r (prev, s, n, []))" by simp
    from matches_remaining [OF this] have sub: "set (remaining y) \<subseteq> set s"
      by (simp add: remaining_def)
    show ?thesis
    proof (cases "left y < n")
      case True
      from 1(2) [OF Cons True] sub Cons True show ?thesis
        by (subst replace_from.simps) auto
    next
      case False
      show ?thesis
      proof (cases s)
        case Nil
        with Cons False show ?thesis by (subst replace_from.simps) simp
      next
        case Cons': (Cons c cs)
        from 1(3) [OF Cons False Cons'] Cons False Cons' show ?thesis
          by (subst replace_from.simps) auto
      qed
    qed
  qed
qed

lemma set_replace_all: "set (replace_all r rep s) \<subseteq> set s \<union> set rep"
  unfolding replace_all_def by (rule set_replace_from)

lemma trim_Nil_iff: "trim s = [] \<longleftrightarrow> (\<forall>c\<in>set s. is_space c)"
proof
  assume "trim s = []"
  then have d: "\<forall>c\<in>set (dropWhile is_space s). is_space c"
    by (simp add: trim_def dropWhile_eq_Nil_conv)
  have "set s = set (takeWhile is_space s) \<union> set (dropWhile is_space s)"
    by (metis set_append takeWhile_dropWhile_id)
  with d show "\<forall>c\<in>set s. is_space c" by (auto dest: set_takeWhileD)
next
  assume "\<forall>c\<in>set s. is_space c"
  then show "trim s = []" by (auto simp: trim_def dropWhile_eq_Nil_conv dest: set_dropWhileD)
qed

lemma blank_replace_all:
  assumes "\<forall>c\<in>set s. is_space c" and "\<forall>c\<in>set rep. is_space c"
  shows "\<forall>c\<in>set (replace_all r rep s). is_space c"
  using assms set_replace_all [of r rep s] by blast

lemma cleanupExtractedText_blank:
  assumes "trim text0 = []"
  shows "cleanupExtractedText text0 = []"
proof -
  have sp: "is_space newline" "is_space (CHR '' '')"
    by (simp_all add: is_space_def newline_def)
  from assms have "\<forall>c\<in>set text0. is_space c" by (simp add: trim_Nil_iff)
  then show ?thesis
    unfolding cleanupExtractedText_def trim_Nil_iff
    by (intro blank_replace_all) (simp_all add: sp)
qed

lemma cleanup_hello: "cleanupExtractedText ''Hello'' = ''Hello''"
  by code_simp

lemma trim_hello: "trim ''Hello'' = ''Hello''"
  by code_simp

text \<open>
  Claim C6, as amended. When the PDF capability returns a text, the stage fails
  with "No text could be extracted from PDF" if and only if that raw text is
  empty or consists of whitespace only; the test is made before the cleanup
  pass. Otherwise the stage returns the cleaned text. In particular, a
  non-empty cleaned text never triggers the failure.
\<close>

theorem extractTextWithProgress_no_text:
  "(trim (pdf_text r) = [] \<longrightarrow>
      extractTextWithProgress (Inr r)
        = Inl ''Failed to extract text: No text could be extracted from PDF'')
   \<and> (trim (pdf_text r) \<noteq> [] \<longrightarrow>
      (\<exists>pages. extractTextWithProgress (Inr r) = Inr (cleanupExtractedText (pdf_text r), pages)))
   \<and> (cleanupExtractedText (pdf_text r) \<noteq> [] \<longrightarrow>
      (\<exists>pages. extractTextWithProgress (Inr r) = Inr (cleanupExtractedText (pdf_text r), pages)))"
proof -
  have a: "trim (pdf_text r) = [] \<longrightarrow>
      extractTextWithProgress (Inr r)
        = Inl ''Failed to extract text: No text could be extracted from PDF''"
    by (simp add: extractTextWithProgress_def)
  have t: "pdf_text r \<noteq> []" if "trim (pdf_text r) \<noteq> []"
    using that by (auto simp: trim_def)
  have b: "trim (pdf_text r) \<noteq> [] \<longrightarrow>
      (\<exists>pages. extractTextWithProgress (Inr r) = Inr (cleanupExtractedText (pdf_text r), pages))"
    using t by (simp add: extractTextWithProgress_def Let_def)
  have "trim (pdf_text r) \<noteq> []" if "cleanupExtractedText (pdf_text r) \<noteq> []"
    using that cleanupExtractedText_blank by blast
  with b have c: "cleanupExtractedText (pdf_text r) \<noteq> [] \<longrightarrow>
      (\<exists>pages. extractTextWithProgress (Inr r) = Inr (cleanupExtractedText (pdf_text r), pages))"
    by blast
  from a b c show ?thesis by (intro conjI)
qed

theorem extractTextWithProgress_no_text_witness:
  "cleanupExtractedText (pdf_text one_line_pdf) \<noteq> []
   \<and> extractTextWithProgress (Inr one_line_pdf) = Inr (''Hello'', 3)
   \<and> trim [] = []
   \<and> extractTextWithProgress (Inr \<lparr> pdf_text = [], pdf_totalPages = Some 3 \<rparr>)
        = Inl ''Failed to extract text: No text could be extracted from PDF''"
proof -
  have c: "cleanupExtractedText (pdf_text one_line_pdf) = ''Hello''"
    by (simp add: one_line_pdf_def cleanup_hello)
  from extractTextWithProgress_no_text [of one_line_pdf] c
  obtain pages where p: "extractTextWithProgress (Inr one_line_pdf) = Inr (''Hello'', pages)"
    by auto
  have "extractTextWithProgress (Inr one_line_pdf) = Inr (''Hello'', 3)"
    using trim_hello
    by (simp add: extractTextWithProgress_def one_line_pdf_def cleanup_hello Let_def)
  moreover have "trim [] = []" by (simp add: trim_def)
  moreover from extractTextWithProgress_no_text [of "\<lparr> pdf_text = [], pdf_totalPages = Some 3 \<rparr>"]
  have "extractTextWithProgress (Inr \<lparr> pdf_text = [], pdf_totalPages = Some 3 \<rparr>)
        = Inl ''Failed to extract text: No text could be extracted from PDF''"
    by (simp add: trim_def)
  ultimately show ?thesis using c by simp
qed

lemma cleanup_page_number: "cleanupExtractedText ''42'' = []"
  by code_simp

lemma pages_of_nothing: "estimatePages [] = 1"
  by code_simp

text \<open>
  Claim C6 as stated fails: the raw text "42" is not empty, the cleanup pass
  removes it as a standalone page number, and the stage returns the empty text
  (with one estimated page) instead of failing.
\<close>

theorem cleanup_to_empty_is_no_failure_counterexample:
  "pdf_text page_number_only \<noteq> []
   \<and> cleanupExtractedText (pdf_text page_number_only) = []
   \<and> extractTextWithProgress (Inr page_number_only) = Inr ([], 1)"
proof -
  have "trim ''42'' = ''42''" by code_simp
  then show ?thesis
    by (simp add: extractTextWithProgress_def page_number_only_def cleanup_page_number
        pages_of_nothing Let_def)
qed

section \<open>Properties of the pattern strategy\<close>

lemma try_pattern_cases:
  "try_pattern text0 (b, h) p =
     (if qualifies text0 p \<and> h < pattern_confidence p then (line_matches p text0, pattern_confidence p)
      else (b, h))"
  by (simp add: try_pattern_def qualifies_def Let_def)

lemma pattern_chapter_cases:
  "pattern_chapter text0 ms i =
     (if 500 < length (trim (substring text0 (match_index (ms ! i)) (chapter_end text0 ms i)))
      then [\<lparr> title = match_title (ms ! i),
              content = trim (substring text0 (match_index (ms ! i)) (chapter_end text0 ms i)),
              wordCount = count_words (trim (substring text0 (match_index (ms ! i)) (chapter_end text0 ms i))),
              startIndex = match_index (ms ! i), endIndex = chapter_end text0 ms i,
              detectionMethod = ''pattern_based'', confidence = match_confidence (ms ! i),
              boundary_strength =
                Some (calculateBoundaryStrength (split_on newline text0) (match_lineNum (ms ! i))) \<rparr>]
      else [])"
  by (simp add: pattern_chapter_def chapter_end_def Let_def)

lemma split_on_nonempty: "split_on sep s \<noteq> []"
  by (induction s) (auto split: list.splits)

lemma split_on_no_sep: "sep \<notin> set xs \<Longrightarrow> split_on sep xs = [xs]"
  by (induction xs) auto

lemma split_on_append_sep:
  "sep \<notin> set xs \<Longrightarrow> split_on sep (xs @ sep # ys) = xs # split_on sep ys"
  by (induction xs) (auto split: list.splits simp: split_on_nonempty)

lemma dropWhile_replicate_append:
  "\<not> P a \<Longrightarrow> 0 < n \<Longrightarrow> dropWhile P (replicate n a @ xs) = replicate n a @ xs"
  by (cases n) auto

lemma lines_repeated_markers:
  "split_on newline repeated_markers =
     [''Chapter 1'', ''Chapter 2'', ''Chapter 1'', replicate 600 (CHR ''a''), ''Chapter 2'',
      replicate 600 (CHR ''b'')]"
proof -
  have a: "newline \<notin> set ''Chapter 1''" and b: "newline \<notin> set (replicate 600 (CHR ''a''))"
    and c: "newline \<notin> set ''Chapter 2''" and d: "newline \<notin> set (replicate 600 (CHR ''b''))"
    by (simp_all add: newline_def)
  show ?thesis
    unfolding repeated_markers_def
    by (simp only: split_on_append_sep [OF a] split_on_append_sep [OF b] split_on_append_sep [OF c]
        split_on_no_sep [OF d])
qed

lemma not_space_letters: "\<not> is_space (CHR ''a'')" "\<not> is_space (CHR ''b'')" "\<not> is_space (CHR ''C'')"
  "\<not> is_space (CHR ''1'')"
  by (simp_all add: is_space_def tab_def newline_def vertical_tab_def form_feed_def carriage_return_def
      no_break_space_def)

lemma trim_replicate_letters:
  "trim (replicate 600 (CHR ''a'')) = replicate 600 (CHR ''a'')"
  "trim (replicate 600 (CHR ''b'')) = replicate 600 (CHR ''b'')"
  using dropWhile_replicate_append [of is_space "CHR ''a''" 600 "[]"]
    dropWhile_replicate_append [of is_space "CHR ''b''" 600 "[]"]
  by (simp_all add: trim_def not_space_letters)

lemma exec_markers:
  "exec re_chapter ''Chapter 1'' = Some (0, ''Chapter 1'', [(1, ''1'')])"
  "exec re_chapter ''Chapter 2'' = Some (0, ''Chapter 2'', [(1, ''2'')])"
  by code_simp+

lemma trim_markers:
  "trim ''Chapter 1'' = ''Chapter 1''" "trim ''Chapter 2'' = ''Chapter 2''"
  by code_simp+

text \<open>\<^verbatim>\<open>text.indexOf(line)\<close> finds the first line with that text.\<close>

lemma index_markers:
  "indexOf repeated_markers ''Chapter 1'' = 0" "indexOf repeated_markers ''Chapter 2'' = 10"
  by (simp_all add: indexOf_def repeated_markers_def newline_def)

lemma line_matches_repeated_markers:
  "line_matches (chapterPatterns ! 0) repeated_markers = repeated_matches"
  by (simp add: line_matches_def lines_repeated_markers trim_replicate_letters trim_markers exec_markers
      index_markers title_of_match_def capture_def chapterPatterns_def repeated_matches_def Let_def)

lemma best_matches_repeated_markers:
  "best_matches chapterPatterns repeated_markers = (repeated_matches, 95 / 100)"
proof -
  have q: "qualifies repeated_markers (chapterPatterns ! 0)"
    by (simp add: qualifies_def line_matches_repeated_markers repeated_matches_def)
  have first: "try_pattern repeated_markers ([], 0) (chapterPatterns ! 0) = (repeated_matches, 95 / 100)"
    using q
    by (simp add: try_pattern_cases line_matches_repeated_markers) (simp add: chapterPatterns_def)
  have later: "try_pattern repeated_markers (repeated_matches, 95 / 100) p = (repeated_matches, 95 / 100)"
    if "pattern_confidence p \<le> 95 / 100" for p
    using that by (simp add: try_pattern_cases)
  have cp: "chapterPatterns = [chapterPatterns ! 0, chapterPatterns ! 1, chapterPatterns ! 2, chapterPatterns ! 3]"
    by (simp add: chapterPatterns_def)
  have c: "pattern_confidence (chapterPatterns ! 1) \<le> 95 / 100"
    "pattern_confidence (chapterPatterns ! 2) \<le> 95 / 100"
    "pattern_confidence (chapterPatterns ! 3) \<le> 95 / 100"
    by (simp_all add: chapterPatterns_def)
  have "best_matches chapterPatterns repeated_markers
      = foldl (try_pattern repeated_markers) ([], 0)
          [chapterPatterns ! 0, chapterPatterns ! 1, chapterPatterns ! 2, chapterPatterns ! 3]"
    unfolding best_matches_def using cp by simp
  also have "\<dots> = (repeated_matches, 95 / 100)"
    by (simp only: foldl.simps first later [OF c(1)] later [OF c(2)] later [OF c(3)])
  finally show ?thesis .
qed

lemma sort_repeated_matches: "sort_key match_index repeated_matches = ordered_matches"
  by (simp add: repeated_matches_def ordered_matches_def)

lemma length_repeated_markers: "length repeated_markers = 1241"
  by (simp add: repeated_markers_def)

lemma body_last:
  "trim (substring repeated_markers 10 1241) =
     ''Chapter 2'' @ newline # ''Chapter 1'' @ newline
       # replicate 600 (CHR ''a'') @ newline # ''Chapter 2'' @ newline # replicate 600 (CHR ''b'')"
proof -
  have "substring repeated_markers 10 1241 = ''Chapter 2'' @ newline # ''Chapter 1'' @ newline
       # replicate 600 (CHR ''a'') @ newline # ''Chapter 2'' @ newline # replicate 600 (CHR ''b'')"
    by (simp add: substring_def repeated_markers_def)
  moreover have "rev (''Chapter 2'' @ newline # ''Chapter 1'' @ newline
       # replicate 600 (CHR ''a'') @ newline # ''Chapter 2'' @ newline # replicate 600 (CHR ''b''))
     = replicate 600 (CHR ''b'') @ rev (''Chapter 2'' @ newline # ''Chapter 1'' @ newline
       # replicate 600 (CHR ''a'') @ newline # ''Chapter 2'' @ [newline])"
    by simp
  ultimately show ?thesis
    using dropWhile_replicate_append [of is_space "CHR ''b''" 600]
    by (simp add: trim_def not_space_letters)
qed

lemma bodies_short:
  "trim (substring repeated_markers 0 0) = []"
  "trim (substring repeated_markers 0 10) = ''Chapter 1''"
  "trim (substring repeated_markers 10 10) = []"
proof -
  have sp: "is_space newline"
    by (simp add: is_space_def newline_def)
  show "trim (substring repeated_markers 0 0) = []"
    by (simp add: substring_def trim_def)
  show "trim (substring repeated_markers 0 10) = ''Chapter 1''"
    by (simp add: substring_def repeated_markers_def trim_def sp not_space_letters)
  show "trim (substring repeated_markers 10 10) = []"
    by (simp add: substring_def trim_def)
qed

text \<open>
  Claim C7 on a text whose marker lines repeat. The offset of a match is
  \<^verbatim>\<open>text.indexOf(line)\<close>, the first place where the text of the
  line occurs, not the place of the matched line. On the text above the four
  matched lines get the offsets 0, 10, 0 and 10, and the strategy emits a single
  chapter, titled "Chapter 2", from offset 10 to the end of the text: it does not
  start at its marker (the line at offset 631), it runs over the two markers
  after offset 10, and the chapter headed by the line at offset 20 is not
  emitted.
\<close>

theorem detectPatternBasedChapters_repeated_markers:
  "map (\<lambda>c. (title c, startIndex c, endIndex c, length (content c)))
       (chapters (detectPatternBasedChapters repeated_markers))
     = [(''Chapter 2'', 10, 1241, 1231)]
   \<and> split_on newline repeated_markers =
       [''Chapter 1'', ''Chapter 2'', ''Chapter 1'', replicate 600 (CHR ''a''), ''Chapter 2'',
        replicate 600 (CHR ''b'')]
   \<and> length repeated_markers = 1241"
proof -
  have e: "chapter_end repeated_markers ordered_matches 0 = 0"
    "chapter_end repeated_markers ordered_matches (Suc 0) = 10"
    "chapter_end repeated_markers ordered_matches 2 = 10"
    "chapter_end repeated_markers ordered_matches 3 = 1241"
    by (simp_all add: chapter_end_def ordered_matches_def repeated_matches_def length_repeated_markers)
  have m: "match_index (ordered_matches ! 0) = 0" "match_index (ordered_matches ! Suc 0) = 0"
    "match_index (ordered_matches ! 2) = 10" "match_index (ordered_matches ! 3) = 10"
    "match_title (ordered_matches ! 3) = ''Chapter 2''" "length ordered_matches = 4"
    by (simp_all add: ordered_matches_def repeated_matches_def)
  have u: "[0..<length repeated_matches] = [0, Suc 0, 2, 3]"
    by (simp add: repeated_matches_def upt_rec)
  have c0: "pattern_chapter repeated_markers ordered_matches 0 = []"
    by (simp add: pattern_chapter_cases m e bodies_short)
  have c1: "pattern_chapter repeated_markers ordered_matches (Suc 0) = []"
    by (simp add: pattern_chapter_cases m e bodies_short)
  have c2: "pattern_chapter repeated_markers ordered_matches 2 = []"
    by (simp add: pattern_chapter_cases m e bodies_short)
  have c3: "map (\<lambda>c. (title c, startIndex c, endIndex c, length (content c)))
              (pattern_chapter repeated_markers ordered_matches 3) = [(''Chapter 2'', 10, 1241, 1231)]"
    by (simp add: pattern_chapter_cases m e body_last)
  have "map (\<lambda>c. (title c, startIndex c, endIndex c, length (content c)))
       (chapters (detectPatternBasedChapters repeated_markers))
     = [(''Chapter 2'', 10, 1241, 1231)]"
    by (simp add: detectPatternBasedChapters_def best_matches_repeated_markers sort_repeated_matches
        m u c0 c1 c2 c3)
  with lines_repeated_markers length_repeated_markers show ?thesis by (intro conjI)
qed

section \<open>Properties of the selection of the best detection\<close>

subsection \<open>Rounding\<close>

lemma pow2_pos: "0 < pow2 e"
  by (simp add: pow2_def)

lemma pow2_add: "pow2 (a + b) = pow2 a * pow2 b"
proof -
  have p: "pow2 e = 2 powi e" for e
    by (simp add: pow2_def power_int_def inverse_eq_divide power_one_over)
  show ?thesis unfolding p by (simp add: power_int_add)
qed

lemma pow2_succ: "pow2 (e + 1) = 2 * pow2 e"
  using pow2_add [of e 1] by (simp add: pow2_def)

lemma pow2_pred: "pow2 (e - 1) * 2 = pow2 e"
  using pow2_succ [of "e - 1"] by simp

lemma pow2_0: "pow2 0 = 1"
  by (simp add: pow2_def)

lemma pow2_nonneg_int: "0 \<le> e \<Longrightarrow> pow2 e \<in> \<int>"
  by (simp add: pow2_def)

lemma scale_down_inv:
  "scale_down m e = (m', e') \<Longrightarrow> m' * pow2 e' = m * pow2 e \<and> e \<le> e' \<and> (0 < m \<longrightarrow> 0 < m')"
proof (induction m e rule: scale_down.induct)
  case (1 m e)
  show ?case
  proof (cases "9007199254740992 \<le> m")
    case True
    with 1(2) have "scale_down (m / 2) (e + 1) = (m', e')"
      by (subst (asm) scale_down.simps) simp
    from 1(1) [OF True this] show ?thesis by (simp add: pow2_succ)
  next
    case False
    with 1(2) have "m' = m" "e' = e" by (subst (asm) scale_down.simps, simp)+
    then show ?thesis by simp
  qed
qed

lemma scale_up_inv:
  "scale_up m e = (m', e') \<Longrightarrow>
     m' * pow2 e' = m * pow2 e \<and> (- 1074 \<le> e \<longrightarrow> - 1074 \<le> e') \<and> (0 < m \<longrightarrow> 0 < m')
     \<and> (4503599627370496 \<le> m' \<or> e' \<le> - 1074)"
proof (induction m e rule: scale_up.induct)
  case (1 m e)
  show ?case
  proof (cases "m < 4503599627370496 \<and> - 1074 < e")
    case True
    with 1(2) have "scale_up (m * 2) (e - 1) = (m', e')"
      by (subst (asm) scale_up.simps) simp
    from 1(1) [OF True this] True show ?thesis
      using pow2_pred [of e] by (simp add: mult.assoc mult.commute mult.left_commute)
  next
    case False
    with 1(2) have "m' = m" "e' = e" by (subst (asm) scale_up.simps, simp)+
    with False show ?thesis by auto
  qed
qed

lemma round_even_ge_floor: "\<lfloor>m\<rfloor> \<le> round_even m"
  by (simp add: round_even_def Let_def)

text \<open>The shape of a rounded non-zero value.\<close>

lemma to_double_shape:
  assumes "x \<noteq> 0"
  shows "\<exists>n e. 0 \<le> n \<and> - 1074 \<le> e
    \<and> to_double x = (if pow2 1024 \<le> of_int n * pow2 e then (if 0 < x then PInf else NInf)
                    else Num (if 0 < x then of_int n * pow2 e else - (of_int n * pow2 e)))
    \<and> (pow2 (- 1074) \<le> \<bar>x\<bar> \<longrightarrow> 0 < n)"
proof -
  obtain m0 e0 where d: "scale_down \<bar>x\<bar> 0 = (m0, e0)" by (cases "scale_down \<bar>x\<bar> 0")
  obtain m e where u: "scale_up m0 e0 = (m, e)" by (cases "scale_up m0 e0")
  from assms have ax: "0 < \<bar>x\<bar>" by simp
  from scale_down_inv [OF d] ax have d': "m0 * pow2 e0 = \<bar>x\<bar>" "0 \<le> e0" "0 < m0"
    by (simp_all add: pow2_0)
  from scale_up_inv [OF u] d' have u': "m * pow2 e = \<bar>x\<bar>" "- 1074 \<le> e" "0 < m"
    "4503599627370496 \<le> m \<or> e \<le> - 1074"
    by simp_all
  from u'(3) have "0 \<le> \<lfloor>m\<rfloor>" by simp
  with round_even_ge_floor [of m] have n0: "0 \<le> round_even m" by linarith
  have td: "to_double x = (if pow2 1024 \<le> of_int (round_even m) * pow2 e then (if 0 < x then PInf else NInf)
                    else Num (if 0 < x then of_int (round_even m) * pow2 e
                              else - (of_int (round_even m) * pow2 e)))"
    using assms d u by (simp add: to_double_def Let_def)
  have pos: "0 < round_even m" if big: "pow2 (- 1074) \<le> \<bar>x\<bar>"
  proof -
    from u'(4) have "1 \<le> m"
    proof
      assume "4503599627370496 \<le> m" then show ?thesis by simp
    next
      assume "e \<le> - 1074"
      with u'(2) have "e = - 1074" by simp
      with u'(1) big have "pow2 (- 1074) \<le> m * pow2 (- 1074)" by simp
      with pow2_pos [of "- 1074"] show ?thesis by simp
    qed
    then have "1 \<le> \<lfloor>m\<rfloor>" by (simp add: le_floor_iff)
    with round_even_ge_floor [of m] show ?thesis by linarith
  qed
  from n0 u'(2) td pos show ?thesis by blast
qed

lemma representable_to_double: "representable (to_double x)"
proof (cases "x = 0")
  case True
  then show ?thesis by (simp add: to_double_def representable_def)
next
  case False
  from to_double_shape [OF this] obtain n e where ne: "0 \<le> n" "- 1074 \<le> e"
    and td: "to_double x = (if pow2 1024 \<le> of_int n * pow2 e then (if 0 < x then PInf else NInf)
                    else Num (if 0 < x then of_int n * pow2 e else - (of_int n * pow2 e)))"
    by blast
  have "pow2 e = pow2 (e + 1074) * pow2 (- 1074)" using pow2_add [of "e + 1074" "- 1074"] by simp
  then have "of_int n * pow2 e / pow2 (- 1074) = of_int n * pow2 (e + 1074)"
    using pow2_pos [of "- 1074"] by simp
  moreover have "pow2 (e + 1074) \<in> \<int>" using ne(2) by (intro pow2_nonneg_int) simp
  ultimately have "of_int n * pow2 e / pow2 (- 1074) \<in> \<int>" by simp
  moreover from this have "- (of_int n * pow2 e) / pow2 (- 1074) \<in> \<int>"
    by (metis Ints_minus minus_divide_left)
  ultimately show ?thesis unfolding td by (simp add: representable_def)
qed

lemma to_double_positive: "pow2 (- 1074) \<le> x \<Longrightarrow> dpositive (to_double x)"
proof -
  assume big: "pow2 (- 1074) \<le> x"
  with pow2_pos [of "- 1074"] have x: "0 < x" by linarith
  then have "x \<noteq> 0" by simp
  from to_double_shape [OF this] obtain n e
    where td: "to_double x = (if pow2 1024 \<le> of_int n * pow2 e then (if 0 < x then PInf else NInf)
                    else Num (if 0 < x then of_int n * pow2 e else - (of_int n * pow2 e)))"
    and n: "pow2 (- 1074) \<le> \<bar>x\<bar> \<longrightarrow> 0 < n"
    by blast
  from n big x have "0 < n" by simp
  then have "0 < of_int n * pow2 e" using pow2_pos [of e] by simp
  with x show ?thesis unfolding td by (simp add: dpositive_def)
qed

lemma to_double_not_positive: "x \<le> 0 \<Longrightarrow> \<not> dpositive (to_double x)"
proof (cases "x = 0")
  case True
  then show ?thesis by (simp add: to_double_def dpositive_def)
next
  case False
  assume "x \<le> 0"
  with False have x: "\<not> 0 < x" by simp
  from to_double_shape [OF False] obtain n e where n: "0 \<le> n"
    and td: "to_double x = (if pow2 1024 \<le> of_int n * pow2 e then (if 0 < x then PInf else NInf)
                    else Num (if 0 < x then of_int n * pow2 e else - (of_int n * pow2 e)))"
    by blast
  from n have "0 \<le> of_int n * pow2 e" using pow2_pos [of e] by simp
  with x show ?thesis unfolding td by (simp add: dpositive_def)
qed

lemma representable_dadd: "representable (dadd a b)"
  by (cases a; cases b) (simp_all add: representable_to_double, simp_all add: representable_def)

text \<open>The sign of a difference of two doubles is the sign of the exact difference.\<close>

lemma dpositive_dsub:
  assumes "representable a" and "representable b" and "a \<noteq> NaN" and "b \<noteq> NaN"
  shows "dpositive (dsub b a) \<longleftrightarrow> \<not> dle b a"
proof (cases a)
  case (Num x)
  note a = this
  show ?thesis
  proof (cases b)
    case (Num y)
    from assms(1) a obtain i where i: "x / pow2 (- 1074) = of_int i"
      by (auto simp: representable_def Ints_def)
    from assms(2) Num obtain j where j: "y / pow2 (- 1074) = of_int j"
      by (auto simp: representable_def Ints_def)
    have q: "0 < pow2 (- 1074)" by (rule pow2_pos)
    from i j q have xy: "x = of_int i * pow2 (- 1074)" "y = of_int j * pow2 (- 1074)"
      by (simp_all add: field_simps)
    have sub: "dsub b a = to_double (y - x)" using a Num by (simp add: dsub_def dneg_def)
    show ?thesis
    proof (cases "y \<le> x")
      case True
      then have "\<not> dpositive (to_double (y - x))" by (intro to_double_not_positive) simp
      with True a Num sub show ?thesis by simp
    next
      case False
      then have "x < y" by simp
      with xy q have "i < j" by simp
      then have "1 \<le> j - i" by simp
      then have "(1 :: rat) \<le> of_int (j - i)" by (metis of_int_1_le_iff)
      then have "1 * pow2 (- 1074) \<le> of_int (j - i) * pow2 (- 1074)"
        using q by (intro mult_right_mono) simp_all
      then have "pow2 (- 1074) \<le> y - x" unfolding xy by (simp add: algebra_simps)
      then have "dpositive (to_double (y - x))" by (rule to_double_positive)
      with False a Num sub show ?thesis by simp
    qed
  next
    case PInf with a show ?thesis by (simp add: dsub_def dneg_def dpositive_def)
  next
    case NInf with a show ?thesis by (simp add: dsub_def dneg_def dpositive_def)
  next
    case NaN with assms show ?thesis by simp
  qed
next
  case PInf
  with assms show ?thesis by (cases b) (simp_all add: dsub_def dneg_def dpositive_def)
next
  case NInf
  with assms show ?thesis by (cases b) (simp_all add: dsub_def dneg_def dpositive_def)
next
  case NaN
  with assms show ?thesis by simp
qed

lemma dle_refl: "a \<noteq> NaN \<Longrightarrow> dle a a"
  by (cases a) simp_all

lemma dle_total: "a \<noteq> NaN \<Longrightarrow> b \<noteq> NaN \<Longrightarrow> dle a b \<or> dle b a"
  by (cases a; cases b) auto

lemma dle_trans: "dle a b \<Longrightarrow> dle b c \<Longrightarrow> dle a c"
  by (cases a; cases b; cases c) auto

lemma dle_not_NaN: "dle a b \<Longrightarrow> a \<noteq> NaN \<and> b \<noteq> NaN"
  by (cases a; cases b) auto

subsection \<open>The score and the sort\<close>

lemma dmul_commute: "dmul a b = dmul b a"
  by (cases a; cases b) (simp_all add: mult.commute)

lemma representable_score: "representable (score r)"
  by (simp add: score_def Let_def representable_dadd)

lemma score_spec: "score r = spec_score r"
  unfolding score_def spec_score_def Let_def mean_def variance_def word_counts_def dsum_def dsquare_def
  by (simp only: dmul_commute [of "to_double (4 / 10)"] dmul_commute [of "to_double (2 / 10)"]
      length_map foldl_map)

lemma to_double_0: "to_double 0 = Num 0"
  by (simp add: to_double_def)

lemma dadd_NaN: "dadd a NaN = NaN"
  by (cases a) simp_all

lemma score_no_chapters: "chapters r = [] \<Longrightarrow> score r = NaN"
  by (simp add: score_def Let_def to_double_0 dsub_def dneg_def dadd_NaN)

lemma set_insert_scored: "set (insert_scored a bs) = insert a (set bs)"
  by (induction bs) auto

lemma set_sort_scored: "set (sort_scored rs) = set rs"
  unfolding sort_scored_def by (induction rs) (simp_all add: set_insert_scored)

lemma sort_scored_Nil: "sort_scored rs = [] \<longleftrightarrow> rs = []"
  using set_sort_scored [of rs] by (metis set_empty)

lemma tops_insert:
  assumes "tops bs" and "representable (snd a)" and "snd a \<noteq> NaN"
    and "\<forall>x\<in>set bs. representable (snd x) \<and> snd x \<noteq> NaN"
  shows "tops (insert_scored a bs)"
proof (cases bs)
  case Nil
  with assms(3) show ?thesis by (simp add: tops_def dle_refl)
next
  case (Cons b bs')
  from assms(4) Cons have b: "representable (snd b)" "snd b \<noteq> NaN" by simp_all
  from assms(1) Cons have all: "\<forall>x\<in>set bs. dle (snd x) (snd b)"
    by (simp add: tops_def list_all_iff)
  have sign: "dpositive (compare_scores (snd a) (snd b)) \<longleftrightarrow> \<not> dle (snd b) (snd a)"
    unfolding compare_scores_def using assms(2) b(1) assms(3) b(2) by (rule dpositive_dsub)
  show ?thesis
  proof (cases "dle (snd b) (snd a)")
    case True
    then have "insert_scored a bs = a # bs" using Cons sign by simp
    moreover have "\<forall>x\<in>set (a # bs). dle (snd x) (snd a)"
      using all True assms(3) by (auto intro: dle_trans dle_refl)
    ultimately show ?thesis by (simp add: tops_def list_all_iff)
  next
    case False
    then have "insert_scored a bs = b # insert_scored a bs'" using Cons sign by simp
    moreover from False have "dle (snd a) (snd b)" using dle_total [OF assms(3) b(2)] by blast
    then have "\<forall>x\<in>set (b # insert_scored a bs'). dle (snd x) (snd b)"
      using all Cons by (auto simp: set_insert_scored)
    ultimately show ?thesis by (simp add: tops_def list_all_iff)
  qed
qed

lemma tops_sort_scored:
  "\<forall>x\<in>set rs. representable (snd x) \<and> snd x \<noteq> NaN \<Longrightarrow> tops (sort_scored rs)"
proof (induction rs)
  case Nil
  then show ?case by (simp add: sort_scored_def tops_def)
next
  case (Cons a rs)
  then have "tops (sort_scored rs)" by simp
  moreover from Cons.prems have "representable (snd a)" "snd a \<noteq> NaN" by simp_all
  moreover from Cons.prems have "\<forall>x\<in>set (sort_scored rs). representable (snd x) \<and> snd x \<noteq> NaN"
    by (simp add: set_sort_scored)
  ultimately have "tops (insert_scored a (sort_scored rs))" by (rule tops_insert)
  then show ?case by (simp add: sort_scored_def)
qed

lemma selectBestDetection_member:
  assumes "rs \<noteq> []"
  shows "\<exists>best\<in>set rs. selectBestDetection rs = Inr (best, score best)"
proof -
  define scored where "scored = map (\<lambda>result. (result, score result)) rs"
  from assms have "sort_scored scored \<noteq> []" by (simp add: sort_scored_Nil scored_def)
  then obtain b bs where srt: "sort_scored scored = b # bs" by (cases "sort_scored scored") auto
  then have "b \<in> set scored" using set_sort_scored [of scored] by (metis list.set_intros(1))
  then obtain best where "best \<in> set rs" "b = (best, score best)" by (auto simp: scored_def)
  moreover have "selectBestDetection rs = Inr b"
    using assms srt by (simp add: selectBestDetection_def scored_def)
  ultimately show ?thesis by blast
qed

subsection \<open>Scores of concrete results\<close>

lemma floor_rat_numeral: "\<lfloor>(numeral a :: rat) / numeral b\<rfloor> = numeral a div numeral b"
  using floor_divide_of_int_eq [where ?'a = rat, of "numeral a" "numeral b"] by simp

lemmas double_eval = score_def dsub_def dneg_def dsquare_def str_includes_def indexOf_def
  to_double_def round_even_def pow2_def Let_def floor_rat_numeral scale_down.simps scale_up.simps

lemma score_even_result: "score even_result = Num (8827055269646171 / 9007199254740992)"
  by (simp add: double_eval even_result_def plain_chapter_def)

lemma score_uneven_result: "score uneven_result = Num (4233383649728267 / 9007199254740992)"
  by (simp add: double_eval uneven_result_def plain_chapter_def)

lemma score_close_pattern: "score close_pattern = Num (5404319552844595 / 9007199254740992)"
  by (simp add: double_eval close_pattern_def plain_chapter_def)

lemma score_structural_one: "score structural_one = Num (1351079888211149 / 2251799813685248)"
  by (simp add: double_eval structural_one_def plain_chapter_def)

lemma exact_scores:
  "exact_score close_pattern = 3 / 5 + 4 / 10 * (1 / 9007199254740992)"
  "exact_score structural_one = 3 / 5"
  by (simp_all add: exact_score_def exact_mean_def exact_variance_def close_pattern_def structural_one_def
      plain_chapter_def str_includes_def indexOf_def)

lemma select_close:
  "selectBestDetection [close_pattern, structural_one]
     = Inr (structural_one, Num (1351079888211149 / 2251799813685248))"
proof -
  have "dpositive (dsub (score structural_one) (score close_pattern))
      \<longleftrightarrow> \<not> dle (score structural_one) (score close_pattern)"
    by (intro dpositive_dsub representable_score) (simp_all add: score_close_pattern score_structural_one)
  then have "dpositive (compare_scores (score close_pattern) (score structural_one))"
    by (simp add: compare_scores_def score_close_pattern score_structural_one)
  then show ?thesis
    by (simp add: selectBestDetection_def sort_scored_def score_structural_one)
qed

text \<open>
  Claim C4, as amended. The selection gives each result the score that
  double-precision arithmetic (every operation rounded to the nearest double)
  yields for 0.4 times its confidence, plus 0.3 if its chapter count is in
  [3,50] and minus 0.2 if it exceeds 50, plus 0.2 times max(0, 1 - variance of
  the chapter word counts / squared mean word count), plus 0.1 if the method
  name contains "pattern" or "semantic". For every non-empty list of strategy
  results none of whose scores is NaN, it returns one of the results, with its
  score, and no result of the list has a higher score.
\<close>

theorem selectBestDetection_highest:
  assumes "results \<noteq> []" and "\<forall>r\<in>set results. score r \<noteq> NaN"
  shows "\<exists>best\<in>set results.
           selectBestDetection results = Inr (best, score best)
           \<and> (\<forall>r\<in>set results. score r = spec_score r \<and> dle (score r) (score best))"
proof -
  define scored where "scored = map (\<lambda>result. (result, score result)) results"
  have scored_set: "set scored = (\<lambda>r. (r, score r)) ` set results"
    unfolding scored_def by simp
  have ok: "\<forall>x\<in>set scored. representable (snd x) \<and> snd x \<noteq> NaN"
    unfolding scored_set using assms(2) by (simp add: representable_score)
  from assms(1) have "sort_scored scored \<noteq> []" by (simp add: sort_scored_Nil scored_def)
  then obtain b bs where srt: "sort_scored scored = b # bs" by (cases "sort_scored scored") auto
  then have "b \<in> set scored" using set_sort_scored [of scored] by (metis list.set_intros(1))
  with scored_set obtain best where best: "best \<in> set results" "b = (best, score best)"
    by auto
  from tops_sort_scored [OF ok] srt
  have "\<forall>x\<in>set (b # bs). dle (snd x) (snd b)"
    by (simp add: tops_def list_all_iff)
  moreover have "set (b # bs) = set scored" using set_sort_scored [of scored] srt by simp
  ultimately have top: "\<forall>x\<in>set scored. dle (snd x) (snd b)"
    by (simp only:)
  have le: "\<forall>r\<in>set results. dle (score r) (score best)"
  proof
    fix r assume "r \<in> set results"
    then have "(r, score r) \<in> set scored" using scored_set by blast
    with top best(2) show "dle (score r) (score best)" by fastforce
  qed
  have "selectBestDetection results = Inr b"
    using assms(1) srt by (simp add: selectBestDetection_def scored_def)
  with best le score_spec show ?thesis by blast
qed

theorem selectBestDetection_highest_witness:
  "[uneven_result, even_result] \<noteq> []
   \<and> score uneven_result = Num (4233383649728267 / 9007199254740992)
   \<and> score even_result = Num (8827055269646171 / 9007199254740992)
   \<and> selectBestDetection [uneven_result, even_result]
       = Inr (even_result, Num (8827055269646171 / 9007199254740992))"
proof -
  have h: "\<forall>r\<in>set [uneven_result, even_result]. score r \<noteq> NaN"
    by (simp add: score_even_result score_uneven_result)
  have n: "[uneven_result, even_result] \<noteq> []" by simp
  from selectBestDetection_highest [OF n h]
  obtain best where best: "best \<in> set [uneven_result, even_result]"
    "selectBestDetection [uneven_result, even_result] = Inr (best, score best)"
    "\<forall>r\<in>set [uneven_result, even_result]. dle (score r) (score best)"
    by blast
  have "\<not> dle (score even_result) (score uneven_result)"
    by (simp add: score_even_result score_uneven_result)
  with best(1,3) have "best = even_result" by auto
  with best(2) show ?thesis by (simp add: score_even_result score_uneven_result)
qed

section \<open>Properties of the fallback chunker\<close>

lemma successful_chapters: "r \<in> set (successful results) \<Longrightarrow> chapters r \<noteq> []"
  by (auto simp: successful_def split: settled.splits if_splits)

lemma successful_fulfilled:
  "successful (map Fulfilled rs) = filter (\<lambda>r. chapters r \<noteq> []) rs"
  by (induction rs) (auto simp: successful_def)

lemma runParallelDetection_cases:
  "runParallelDetection text0 bk =
     (if \<forall>r\<in>set (strategy_results text0 bk). chapters r = []
      then [\<lparr> chapters = createOptimizedChunks text0 (book_title bk),
              method_name = ''fallback_chunking'', result_confidence = 3 / 10 \<rparr>]
      else filter (\<lambda>r. chapters r \<noteq> []) (strategy_results text0 bk))"
proof -
  have "runParallelDetection text0 bk
      = runParallelDetection_settled (map Fulfilled (strategy_results text0 bk)) text0 bk"
    by (simp add: runParallelDetection_def strategy_results_def)
  then show ?thesis
    unfolding runParallelDetection_settled_def Let_def successful_fulfilled
    by (auto simp: filter_empty_conv)
qed

lemma runParallelDetection_settled_nonempty: "runParallelDetection_settled results text0 bk \<noteq> []"
  by (simp add: runParallelDetection_settled_def Let_def)

lemma runParallelDetection_nonempty: "runParallelDetection text0 bk \<noteq> []"
  by (simp add: runParallelDetection_def runParallelDetection_settled_nonempty)

lemma chunk_loop_nonempty:
  "chunk_loop words bookTitle i \<noteq> [] \<longleftrightarrow>
     (\<exists>k. i + 2000 * k < length words
          \<and> 100 < length (trim (join_with '' '' (slice words (i + 2000 * k) (i + 2000 * k + 2000)))))"
proof (induction words bookTitle i rule: chunk_loop.induct)
  case (1 words bookTitle i)
  show ?case
  proof (cases "i < length words")
    case False
    then have "chunk_loop words bookTitle i = []" by (subst chunk_loop.simps) simp
    moreover from False have "\<not> (\<exists>k. i + 2000 * k < length words
          \<and> 100 < length (trim (join_with '' '' (slice words (i + 2000 * k) (i + 2000 * k + 2000)))))"
      by auto
    ultimately show ?thesis by simp
  next
    case True
    have IH: "chunk_loop words bookTitle (i + 2000) \<noteq> [] \<longleftrightarrow>
     (\<exists>k. i + 2000 + 2000 * k < length words
          \<and> 100 < length (trim (join_with '' '' (slice words (i + 2000 + 2000 * k) (i + 2000 + 2000 * k + 2000)))))"
      using 1 True by simp
    have unfold: "chunk_loop words bookTitle i \<noteq> [] \<longleftrightarrow>
        100 < length (trim (join_with '' '' (slice words i (i + 2000))))
        \<or> chunk_loop words bookTitle (i + 2000) \<noteq> []"
      using True by (subst chunk_loop.simps) (simp add: Let_def)
    have shift: "(\<exists>k. i + 2000 * k < length words
          \<and> 100 < length (trim (join_with '' '' (slice words (i + 2000 * k) (i + 2000 * k + 2000)))))
      \<longleftrightarrow> 100 < length (trim (join_with '' '' (slice words i (i + 2000))))
         \<or> (\<exists>k. i + 2000 + 2000 * k < length words
          \<and> 100 < length (trim (join_with '' '' (slice words (i + 2000 + 2000 * k) (i + 2000 + 2000 * k + 2000)))))"
      (is "(\<exists>k. ?P k) \<longleftrightarrow> ?A \<or> (\<exists>k. ?Q k)")
    proof
      assume "\<exists>k. ?P k"
      then obtain k where k: "?P k" by blast
      show "?A \<or> (\<exists>k. ?Q k)"
      proof (cases k)
        case 0
        with k show ?thesis by simp
      next
        case (Suc j)
        with k have "?Q j" by (simp add: algebra_simps)
        then show ?thesis by blast
      qed
    next
      assume "?A \<or> (\<exists>k. ?Q k)"
      then show "\<exists>k. ?P k"
      proof
        assume ?A
        with True have "?P 0" by simp
        then show ?thesis by blast
      next
        assume "\<exists>k. ?Q k"
        then obtain j where "?Q j" by blast
        then have "?P (Suc j)" by (simp add: algebra_simps)
        then show ?thesis by blast
      qed
    qed
    show ?thesis unfolding unfold IH shift ..
  qed
qed

subsection \<open>A text of one short word\<close>

lemma hi_words: "split_re ws_plus ''Hi'' = [''Hi'']" "count_words ''Hi'' = 1"
  by code_simp+

lemma hi_trim: "trim ''Hi'' = ''Hi''"
  by code_simp

lemma hi_pattern: "chapters (detectPatternBasedChapters ''Hi'') = []"
  by code_simp

lemma hi_structural: "chapters (detectStructuralChapters ''Hi'') = []"
  by code_simp

lemma hi_sentences: "split_re re_sentence_end ''Hi'' = [''Hi'']"
  by code_simp

lemma hi_semantic: "chapters (detectSemanticChapters ''Hi'' bt) = []"
proof -
  have "semantic_breaks ''Hi'' = []"
    by (simp add: semantic_breaks_def hi_sentences hi_trim)
  then show ?thesis
    by (simp add: detectSemanticChapters_def Let_def)
qed

lemma hi_chunks: "createOptimizedChunks ''Hi'' bt = []"
proof -
  have "chunk_loop [''Hi''] bt 0 = []"
    by (subst chunk_loop.simps, subst chunk_loop.simps) (simp add: Let_def slice_def hi_trim)
  then show ?thesis by (simp add: createOptimizedChunks_def hi_words)
qed

lemma hi_adaptive: "chapters (detectAdaptiveChapters ''Hi'' bk) = []"
proof -
  have l: "adaptive_loop [''Hi''] Short_form bt 0 1 = []" for bt
    by (subst adaptive_loop.simps, subst adaptive_loop.simps)
      (simp add: Let_def slice_def hi_trim chapterSize_def)
  have s: "(if count_words ''Hi'' < 20000 then Short_form else X) = Short_form" for X
    unfolding hi_words by simp
  have a: "applyAdaptiveStrategy ''Hi'' Short_form bt = []" for bt
    unfolding applyAdaptiveStrategy_def hi_words by (rule l)
  show ?thesis
    unfolding detectAdaptiveChapters_def Let_def s a by simp
qed

lemma hi_strategies: "\<forall>r\<in>set (strategy_results ''Hi'' bk). chapters r = []"
  by (simp add: strategy_results_def hi_pattern hi_structural hi_semantic hi_adaptive)

lemma hi_results: "runParallelDetection ''Hi'' short_book = [empty_fallback]"
  using hi_strategies [of short_book]
  by (simp add: runParallelDetection_cases hi_chunks empty_fallback_def)

lemma one_word_chunks: "createOptimizedChunks one_word ''Notes'' \<noteq> []"
  by code_simp

text \<open>
  Claim C8, as amended. For every input text and book, the list of results
  handed to the selection step is non-empty, so the selection returns one of
  them and never takes its "No chapter detection results available" branch.
  On a non-empty text, chapter detection returns at least one chapter when some
  strategy produces a chapter or the fallback chunker does, and returns no
  chapter at all when neither does. The fallback chunker (chunks of 2000 words)
  yields a non-empty list exactly when some chunk, joined by spaces and
  trimmed, is longer than 100 characters.
\<close>

theorem detection_results_never_empty:
  "runParallelDetection text0 bk \<noteq> []
   \<and> (\<exists>best\<in>set (runParallelDetection text0 bk).
         selectBestDetection (runParallelDetection text0 bk) = Inr (best, score best))
   \<and> (text0 \<noteq> []
        \<and> ((\<exists>r\<in>set (strategy_results text0 bk). chapters r \<noteq> [])
            \<or> createOptimizedChunks text0 (book_title bk) \<noteq> [])
        \<longrightarrow> (\<exists>chs. detect_chapters text0 bk = Inr chs \<and> chs \<noteq> []))
   \<and> (text0 \<noteq> []
        \<and> (\<forall>r\<in>set (strategy_results text0 bk). chapters r = [])
        \<and> createOptimizedChunks text0 (book_title bk) = []
        \<longrightarrow> detect_chapters text0 bk = Inr [])
   \<and> (createOptimizedChunks text0 (book_title bk) \<noteq> [] \<longleftrightarrow>
        (\<exists>k. 2000 * k < length (split_re ws_plus text0)
             \<and> 100 < length (trim (join_with '' '' (slice (split_re ws_plus text0) (2000 * k) (2000 * k + 2000))))))"
proof -
  define rs where "rs = runParallelDetection text0 bk"
  have ne: "rs \<noteq> []" unfolding rs_def by (rule runParallelDetection_nonempty)
  from selectBestDetection_member [OF ne]
  obtain best where best: "best \<in> set rs" "selectBestDetection rs = Inr (best, score best)" by blast
  have det: "detect_chapters text0 bk = Inr (optimizeChapters (chapters best) text0)" if "text0 \<noteq> []"
    using that best(2) by (simp add: detect_chapters_def rs_def)
  have c: "\<exists>chs. detect_chapters text0 bk = Inr chs \<and> chs \<noteq> []"
    if t: "text0 \<noteq> []"
      and s: "(\<exists>r\<in>set (strategy_results text0 bk). chapters r \<noteq> [])
            \<or> createOptimizedChunks text0 (book_title bk) \<noteq> []"
  proof -
    have "\<forall>r\<in>set rs. chapters r \<noteq> []"
      using s unfolding rs_def runParallelDetection_cases by auto
    with best(1) have "chapters best \<noteq> []" by blast
    then have "optimizeChapters (chapters best) text0 \<noteq> []"
      by (simp add: optimizeChapters_def)
    with det [OF t] show ?thesis by blast
  qed
  have d: "detect_chapters text0 bk = Inr []"
    if t: "text0 \<noteq> []" and s: "\<forall>r\<in>set (strategy_results text0 bk). chapters r = []"
      and f: "createOptimizedChunks text0 (book_title bk) = []"
  proof -
    have "\<forall>r\<in>set rs. chapters r = []"
      using s f unfolding rs_def runParallelDetection_cases by simp
    with best(1) have "chapters best = []" by blast
    with det [OF t] show ?thesis by (simp add: optimizeChapters_def)
  qed
  have e: "createOptimizedChunks text0 (book_title bk) \<noteq> [] \<longleftrightarrow>
        (\<exists>k. 2000 * k < length (split_re ws_plus text0)
             \<and> 100 < length (trim (join_with '' '' (slice (split_re ws_plus text0) (2000 * k) (2000 * k + 2000)))))"
    unfolding createOptimizedChunks_def
    using chunk_loop_nonempty [of "split_re ws_plus text0" "book_title bk" 0] by simp
  have a: "runParallelDetection text0 bk \<noteq> []" using ne unfolding rs_def .
  have b: "\<exists>best\<in>set (runParallelDetection text0 bk).
         selectBestDetection (runParallelDetection text0 bk) = Inr (best, score best)"
    using best unfolding rs_def by blast
  have c': "text0 \<noteq> []
        \<and> ((\<exists>r\<in>set (strategy_results text0 bk). chapters r \<noteq> [])
            \<or> createOptimizedChunks text0 (book_title bk) \<noteq> [])
        \<longrightarrow> (\<exists>chs. detect_chapters text0 bk = Inr chs \<and> chs \<noteq> [])"
    using c by (intro impI) (elim conjE, assumption)
  have d': "text0 \<noteq> []
        \<and> (\<forall>r\<in>set (strategy_results text0 bk). chapters r = [])
        \<and> createOptimizedChunks text0 (book_title bk) = []
        \<longrightarrow> detect_chapters text0 bk = Inr []"
    using d by (intro impI) (elim conjE, assumption)
  show ?thesis
    apply (intro conjI)
        apply (rule a)
       apply (rule b)
      apply (rule c')
     apply (rule d')
    apply (rule e)
    done
qed

theorem detection_results_never_empty_witness:
  "one_word \<noteq> []
   \<and> createOptimizedChunks one_word (book_title short_book) \<noteq> []
   \<and> (\<exists>chs. detect_chapters one_word short_book = Inr chs \<and> chs \<noteq> [])
   \<and> detect_chapters ''Hi'' short_book = Inr []"
proof -
  have n: "one_word \<noteq> []" by (simp add: one_word_def)
  have t: "book_title short_book = ''Notes''" by (simp add: short_book_def)
  have c: "createOptimizedChunks one_word (book_title short_book) \<noteq> []"
    unfolding t by (rule one_word_chunks)
  note gen = detection_results_never_empty [of one_word short_book]
  note hi = detection_results_never_empty [of "''Hi''" short_book]
  from gen n c have "\<exists>chs. detect_chapters one_word short_book = Inr chs \<and> chs \<noteq> []" by blast
  moreover from hi hi_strategies [of short_book] hi_chunks [of "book_title short_book"]
  have "detect_chapters ''Hi'' short_book = Inr []" by simp
  ultimately show ?thesis using n c by blast
qed

text \<open>
  Claim C8 as stated fails: on the text "Hi" no strategy produces a chapter and
  the fallback chunker drops its only chunk (2 characters, not more than 100),
  so chapter detection returns the empty chapter list.
\<close>

theorem detect_chapters_without_chapters_counterexample:
  "detect_chapters ''Hi'' short_book = Inr []
   \<and> createOptimizedChunks ''Hi'' (book_title short_book) = []
   \<and> runParallelDetection ''Hi'' short_book = [empty_fallback]
   \<and> chapters empty_fallback = []"
proof -
  have "selectBestDetection [empty_fallback] = Inr (empty_fallback, score empty_fallback)"
    using selectBestDetection_member [of "[empty_fallback]"] by simp
  then have "detect_chapters ''Hi'' short_book = Inr []"
    by (simp add: detect_chapters_def hi_results optimizeChapters_def empty_fallback_def)
  then show ?thesis by (simp add: hi_chunks hi_results) (simp add: empty_fallback_def)
qed

text \<open>
  Claim C4 as stated fails. Of a pattern result with the confidence next above
  0.75 and a structural result with confidence 1, one chapter each, the
  selection returns the structural result, although the formula, read over the
  rationals, gives the pattern result the higher value: the two products and
  sums are rounded. And on the text "Hi" the list of results is the single
  fallback result, which has no chapter; its mean word count is 0/0, and its
  score is NaN, not a number.
\<close>

theorem selectBestDetection_exact_score_counterexample:
  "selectBestDetection [close_pattern, structural_one]
     = Inr (structural_one, Num (1351079888211149 / 2251799813685248))
   \<and> score close_pattern = Num (5404319552844595 / 9007199254740992)
   \<and> exact_score structural_one < exact_score close_pattern
   \<and> runParallelDetection ''Hi'' short_book = [empty_fallback]
   \<and> score empty_fallback = NaN
   \<and> selectBestDetection [empty_fallback] = Inr (empty_fallback, NaN)"
proof -
  have s: "score empty_fallback = NaN" by (simp add: score_no_chapters empty_fallback_def)
  have "selectBestDetection [empty_fallback] = Inr (empty_fallback, score empty_fallback)"
    using selectBestDetection_member [of "[empty_fallback]"] by simp
  with s hi_results select_close score_close_pattern show ?thesis
    by (simp add: exact_scores)
qed

section \<open>Properties of the boundary optimization\<close>

lemma optimized_end_range:
  "optimized_end ch nextStart fullText = Some e \<Longrightarrow> e > startIndex ch + 500 \<and> e < nextStart - 100"
  unfolding optimized_end_def Let_def
  by (auto dest: find_Some_iff[THEN iffD1])

lemma length_optimizeChapters: "length (optimizeChapters chs fullText) = length chs"
  by (simp add: optimizeChapters_def)

lemma optimizeChapters_nth:
  "i < length chs \<Longrightarrow> optimizeChapters chs fullText ! i = optimize_one chs fullText i"
  by (simp add: optimizeChapters_def)

text \<open>
  Claim C10. \<^verbatim>\<open>optimizeChapters\<close> returns as many chapters as it
  receives. For every chapter it leaves the title, the detection method, the
  confidence, the start offset (and the boundary strength) unchanged; the last
  chapter keeps its end offset and its content. Where the end offset or the
  content of a chapter changes, the chapter is not the last one and the new end
  offset is strictly above its start offset + 500 and strictly below the next
  chapter's start offset - 100 (the new content is the trimmed text between the
  start and the new end). The word count is recomputed from the content.
\<close>

theorem optimizeChapters_frame:
  assumes "i < length chs"
  shows "length (optimizeChapters chs fullText) = length chs
    \<and> title (optimizeChapters chs fullText ! i) = title (chs ! i)
    \<and> detectionMethod (optimizeChapters chs fullText ! i) = detectionMethod (chs ! i)
    \<and> confidence (optimizeChapters chs fullText ! i) = confidence (chs ! i)
    \<and> startIndex (optimizeChapters chs fullText ! i) = startIndex (chs ! i)
    \<and> boundary_strength (optimizeChapters chs fullText ! i) = boundary_strength (chs ! i)
    \<and> (i + 1 = length chs \<longrightarrow>
          endIndex (optimizeChapters chs fullText ! i) = endIndex (chs ! i)
          \<and> content (optimizeChapters chs fullText ! i) = content (chs ! i))
    \<and> (endIndex (optimizeChapters chs fullText ! i) \<noteq> endIndex (chs ! i) \<longrightarrow>
          i + 1 < length chs
          \<and> endIndex (optimizeChapters chs fullText ! i) > startIndex (chs ! i) + 500
          \<and> endIndex (optimizeChapters chs fullText ! i) < startIndex (chs ! (i + 1)) - 100)
    \<and> (content (optimizeChapters chs fullText ! i) \<noteq> content (chs ! i) \<longrightarrow>
          i + 1 < length chs
          \<and> endIndex (optimizeChapters chs fullText ! i) > startIndex (chs ! i) + 500
          \<and> endIndex (optimizeChapters chs fullText ! i) < startIndex (chs ! (i + 1)) - 100
          \<and> content (optimizeChapters chs fullText ! i)
              = trim (substring fullText (startIndex (chs ! i)) (endIndex (optimizeChapters chs fullText ! i))))
    \<and> wordCount (optimizeChapters chs fullText ! i)
        = count_words (content (optimizeChapters chs fullText ! i))"
proof -
  define moved where "moved = (if i + 1 < length chs
      then optimized_end (chs ! i) (startIndex (chs ! (i + 1))) fullText else None)"
  have nth: "optimizeChapters chs fullText ! i = optimize_one chs fullText i"
    using assms by (rule optimizeChapters_nth)
  show ?thesis
  proof (cases moved)
    case None
    then have "optimize_one chs fullText i = (chs ! i)\<lparr> content := content (chs ! i),
        startIndex := startIndex (chs ! i), endIndex := endIndex (chs ! i),
        wordCount := count_words (content (chs ! i)) \<rparr>"
      by (simp add: optimize_one_def Let_def moved_def)
    then show ?thesis unfolding nth by (simp add: length_optimizeChapters)
  next
    case (Some e)
    then have next_exists: "i + 1 < length chs"
      and oe: "optimized_end (chs ! i) (startIndex (chs ! (i + 1))) fullText = Some e"
      by (auto simp: moved_def split: if_splits)
    from optimized_end_range [OF oe]
    have range: "e > startIndex (chs ! i) + 500" "e < startIndex (chs ! (i + 1)) - 100" by simp_all
    from Some have "optimize_one chs fullText i = (chs ! i)\<lparr>
        content := trim (substring fullText (startIndex (chs ! i)) e),
        startIndex := startIndex (chs ! i), endIndex := e,
        wordCount := count_words (trim (substring fullText (startIndex (chs ! i)) e)) \<rparr>"
      by (simp add: optimize_one_def Let_def moved_def)
    then show ?thesis unfolding nth using next_exists range by (simp add: length_optimizeChapters)
  qed
qed

lemma find_map_upt_first: "a < b \<Longrightarrow> P (f a) \<Longrightarrow> find P (map f [a..<b]) = Some (f a)"
  by (simp add: upt_conv_Cons)

lemma length_concat_replicate: "length (concat (replicate n xs)) = n * length xs"
  by (induction n) simp_all

lemma boundary_text: "substring moved_text 500 900 = boundary_sample"
  by (simp add: substring_def moved_text_def boundary_sample_def length_concat_replicate)

lemma boundary_sentences:
  "length (split_re re_sentence_end boundary_sample) = 51"
  "split_re re_sentence_end boundary_sample ! 25 = '' ab''"
  by code_simp+

lemma boundary_index: "indexOf boundary_sample '' ab'' = 3"
  by code_simp

lemma moved_end: "optimized_end (moved_chapters ! 0) 700 moved_text = Some 507"
proof -
  have e: "endIndex (moved_chapters ! 0) = 700" "startIndex (moved_chapters ! 0) = 0"
    by (simp_all add: moved_chapters_def)
  have bt: "substring moved_text (700 - 200) (700 + 200) = boundary_sample"
    using boundary_text by simp
  have first: "(0::int) + 500 < 700 - 200 + (indexOf boundary_sample (split_re re_sentence_end boundary_sample ! 25)
       + int (length (split_re re_sentence_end boundary_sample ! 25)) + 1)
     \<and> 700 - 200 + (indexOf boundary_sample (split_re re_sentence_end boundary_sample ! 25)
       + int (length (split_re re_sentence_end boundary_sample ! 25)) + 1) < (700::int) - 100"
    by (simp add: boundary_sentences boundary_index)
  have "find (\<lambda>actualEnd. 0 + 500 < actualEnd \<and> actualEnd < 700 - 100)
      (map (\<lambda>j. 700 - 200 + (indexOf boundary_sample (split_re re_sentence_end boundary_sample ! j)
                 + int (length (split_re re_sentence_end boundary_sample ! j)) + 1))
        [25..<50])
     = Some (700 - 200 + (indexOf boundary_sample (split_re re_sentence_end boundary_sample ! 25)
                 + int (length (split_re re_sentence_end boundary_sample ! 25)) + 1))"
    using first by (intro find_map_upt_first) simp_all
  then show ?thesis
    unfolding optimized_end_def Let_def e bt
    by (simp add: boundary_sentences boundary_index)
qed

theorem optimizeChapters_frame_witness:
  "0 < length moved_chapters
   \<and> endIndex (moved_chapters ! 0) = 700
   \<and> endIndex (optimizeChapters moved_chapters moved_text ! 0) = 507
   \<and> startIndex (moved_chapters ! 0) + 500 < 507
   \<and> 507 < startIndex (moved_chapters ! 1) - 100
   \<and> title (optimizeChapters moved_chapters moved_text ! 0) = ''First''"
proof -
  have l: "0 < length moved_chapters" and l2: "0 + 1 < length moved_chapters"
    by (simp_all add: moved_chapters_def)
  have s: "startIndex (moved_chapters ! 1) = 700" "startIndex (moved_chapters ! 0) = 0"
    "endIndex (moved_chapters ! 0) = 700" "title (moved_chapters ! 0) = ''First''"
    by (simp_all add: moved_chapters_def)
  have "optimize_one moved_chapters moved_text 0
      = (moved_chapters ! 0)\<lparr> content := trim (substring moved_text 0 507), startIndex := 0,
           endIndex := 507, wordCount := count_words (trim (substring moved_text 0 507)) \<rparr>"
    using moved_end s l l2 by (simp add: optimize_one_def Let_def)
  then have m: "endIndex (optimizeChapters moved_chapters moved_text ! 0) = 507"
    using l by (simp add: optimizeChapters_nth)
  have t: "title (optimizeChapters moved_chapters moved_text ! 0) = ''First''"
    using optimizeChapters_frame [OF l, of moved_text] s by simp
  from l s m t show ?thesis by simp
qed

section \<open>Properties of the chapter store\<close>

lemma foldl_add_sum_list: "foldl (\<lambda>sum x. sum + f x) (a::nat) xs = a + sum_list (map f xs)"
  by (induction xs arbitrary: a) auto

lemma slice_subset: "set (slice xs a b) \<subseteq> set xs"
  unfolding slice_def by (meson set_take_subset set_drop_subset subset_trans)

lemma insert_batches_subset: "set (insert_batches row_ok rows i) \<subseteq> set rows"
proof (induction row_ok rows i rule: insert_batches.induct)
  case (1 row_ok rows i)
  show ?case
  proof (cases "i < length rows")
    case True
    have rec: "set (insert_batches row_ok rows (i + 10)) \<subseteq> set rows"
      using 1 True by simp
    have sl: "set (slice rows i (i + 10)) \<subseteq> set rows" by (rule slice_subset)
    have unfold: "insert_batches row_ok rows i =
        (if \<forall>r\<in>set (slice rows i (i + 10)). row_ok r then slice rows i (i + 10)
         else filter row_ok (slice rows i (i + 10)))
        @ insert_batches row_ok rows (i + 10)"
      using True by (subst insert_batches.simps) (simp add: Let_def)
    show ?thesis unfolding unfold using rec sl by auto
  next
    case False
    then have "insert_batches row_ok rows i = []" by (subst insert_batches.simps) simp
    then show ?thesis by simp
  qed
qed

lemma prepared_reading_time:
  "r \<in> set (prepareChaptersForDB bookId now chs) \<Longrightarrow>
     reading_time_minutes r = nat \<lceil>(of_nat (word_count r) :: rat) / 200\<rceil>"
  by (auto simp: prepareChaptersForDB_def prepare_one_def readingTime_def Let_def)

lemma map_snd_enumerate_comp: "map (\<lambda>x. f (snd x)) (enumerate n xs) = map f xs"
  by (induction xs arbitrary: n) auto

lemma prepared_word_counts:
  "map word_count (prepareChaptersForDB bookId now chs) = map wordCount chs"
proof -
  have "map word_count (prepareChaptersForDB bookId now chs)
      = map (\<lambda>x. wordCount (snd x)) (enumerate 0 chs)"
    by (simp add: prepareChaptersForDB_def prepare_one_def Let_def o_def)
  also have "\<dots> = map wordCount chs"
    by (rule map_snd_enumerate_comp)
  finally show ?thesis .
qed

lemma prepared_reading_times:
  "map reading_time_minutes (prepareChaptersForDB bookId now chs)
     = map (\<lambda>c. readingTime (wordCount c)) chs"
proof -
  have "map reading_time_minutes (prepareChaptersForDB bookId now chs)
      = map (\<lambda>x. (\<lambda>c. readingTime (wordCount c)) (snd x)) (enumerate 0 chs)"
    by (simp add: prepareChaptersForDB_def prepare_one_def Let_def o_def)
  also have "\<dots> = map (\<lambda>c. readingTime (wordCount c)) chs"
    by (rule map_snd_enumerate_comp)
  finally show ?thesis .
qed

lemma readingTime_div: "readingTime w = (w + 199) div 200"
proof -
  have "\<lceil>(of_nat w :: rat) / 200\<rceil> = \<lceil>(of_int (int w) :: rat) / of_int 200\<rceil>" by simp
  also have "\<dots> = - ((- int w) div 200)" by (simp only: ceiling_divide_eq_div)
  also have "\<dots> = (int w + 199) div 200" by linarith
  finally show ?thesis unfolding readingTime_def by (simp add: nat_div_distrib nat_add_distrib)
qed

lemma updateBookCompletionStatus_fields:
  assumes "b \<in> set (updateBookCompletionStatus True bookId stats books)" and "bk_id b = bookId"
  shows "bk_total_word_count b = Some (totalWordCount stats)
         \<and> bk_estimated_total_reading_time b = Some (totalReadingTime stats)"
proof -
  define g :: "book_row \<Rightarrow> book_row" where "g = (\<lambda>b. if bk_id b = bookId
                     then b\<lparr> bk_processing_status := PCompleted,
                            bk_total_word_count := Some (totalWordCount stats),
                            bk_estimated_total_reading_time := Some (totalReadingTime stats),
                            bk_enhancement_status := Some EPending \<rparr>
                     else b)"
  from assms(1) have "b \<in> g ` set books"
    by (simp add: updateBookCompletionStatus_def g_def)
  then obtain x where x: "b = g x" by blast
  show ?thesis
  proof (cases "bk_id x = bookId")
    case True
    then have "g x = x\<lparr> bk_processing_status := PCompleted,
                            bk_total_word_count := Some (totalWordCount stats),
                            bk_estimated_total_reading_time := Some (totalReadingTime stats),
                            bk_enhancement_status := Some EPending \<rparr>"
      by (simp add: g_def)
    then show ?thesis unfolding x by simp
  next
    case False
    then have "g x = x" by (simp add: g_def)
    with x assms(2) False show ?thesis by simp
  qed
qed

text \<open>
  Claim C9. When the chapter store accepts a request (some chapter is valid)
  and the update of the book succeeds: every stored chapter's reading time is
  \<open>\<lceil>word_count / 200\<rceil>\<close>; the book is updated with the sum of the word
  counts of the validated chapters and the sum of their reading times; and
  these are the sums of the two columns over the rows prepared for insertion.
\<close>

theorem store_chapters_totals:
  assumes "store_chapters row_ok True now bookId chs books = Inr out"
  shows "(\<forall>r\<in>set (fst out). reading_time_minutes r = nat \<lceil>(of_nat (word_count r) :: rat) / 200\<rceil>)
    \<and> (\<forall>b\<in>set (fst (snd out)). bk_id b = bookId \<longrightarrow>
          bk_total_word_count b = Some (sum_list (map wordCount (validateChapters chs)))
          \<and> bk_estimated_total_reading_time b
              = Some (sum_list (map (\<lambda>c. nat \<lceil>(of_nat (wordCount c) :: rat) / 200\<rceil>) (validateChapters chs))))
    \<and> sum_list (map word_count (prepareChaptersForDB bookId now (validateChapters chs)))
        = sum_list (map wordCount (validateChapters chs))
    \<and> sum_list (map reading_time_minutes (prepareChaptersForDB bookId now (validateChapters chs)))
        = sum_list (map (\<lambda>c. nat \<lceil>(of_nat (wordCount c) :: rat) / 200\<rceil>) (validateChapters chs))"
proof -
  define vs where "vs = validateChapters chs"
  define stats where "stats = calculateBookStats vs"
  define rows where "rows = prepareChaptersForDB bookId now vs"
  from assms have nonempty: "length vs \<noteq> 0"
    by (auto simp: store_chapters_def Let_def vs_def split: if_splits)
  from assms nonempty have o1: "fst out = insertChaptersInBatches row_ok rows"
    and o2: "fst (snd out) = updateBookCompletionStatus True bookId stats books"
    by (auto simp: store_chapters_def Let_def vs_def stats_def rows_def)
  have total: "totalWordCount stats = sum_list (map wordCount vs)"
    by (simp add: stats_def calculateBookStats_def Let_def foldl_add_sum_list)
  have "totalReadingTime stats = foldl (\<lambda>sum c. sum + readingTime (wordCount c)) 0 vs"
    by (simp add: stats_def calculateBookStats_def Let_def)
  also have "\<dots> = sum_list (map (\<lambda>c. readingTime (wordCount c)) vs)"
    using foldl_add_sum_list [where f = "\<lambda>c. readingTime (wordCount c)" and a = 0 and xs = vs]
    by simp
  finally have reading: "totalReadingTime stats
      = sum_list (map (\<lambda>c. nat \<lceil>(of_nat (wordCount c) :: rat) / 200\<rceil>) vs)"
    by (simp add: readingTime_def)
  have stored: "\<forall>r\<in>set (fst out). reading_time_minutes r = nat \<lceil>(of_nat (word_count r) :: rat) / 200\<rceil>"
  proof
    fix r assume "r \<in> set (fst out)"
    then have "r \<in> set (insert_batches row_ok rows 0)"
      by (simp add: o1 insertChaptersInBatches_def)
    then have "r \<in> set (prepareChaptersForDB bookId now vs)"
      using insert_batches_subset unfolding rows_def by blast
    then show "reading_time_minutes r = nat \<lceil>(of_nat (word_count r) :: rat) / 200\<rceil>"
      by (rule prepared_reading_time)
  qed
  have book: "\<forall>b\<in>set (fst (snd out)). bk_id b = bookId \<longrightarrow>
          bk_total_word_count b = Some (totalWordCount stats)
          \<and> bk_estimated_total_reading_time b = Some (totalReadingTime stats)"
    unfolding o2 using updateBookCompletionStatus_fields by blast
  have s1: "sum_list (map word_count (prepareChaptersForDB bookId now vs)) = sum_list (map wordCount vs)"
    by (simp only: prepared_word_counts)
  have s2: "sum_list (map reading_time_minutes (prepareChaptersForDB bookId now vs))
        = sum_list (map (\<lambda>c. nat \<lceil>(of_nat (wordCount c) :: rat) / 200\<rceil>) vs)"
    by (simp only: prepared_reading_times readingTime_def)
  from book have book': "\<forall>b\<in>set (fst (snd out)). bk_id b = bookId \<longrightarrow>
          bk_total_word_count b = Some (sum_list (map wordCount vs))
          \<and> bk_estimated_total_reading_time b
              = Some (sum_list (map (\<lambda>c. nat \<lceil>(of_nat (wordCount c) :: rat) / 200\<rceil>) vs))"
    unfolding total reading .
  show ?thesis
    unfolding vs_def [symmetric] using stored book' s1 s2 by (intro conjI)
qed

theorem store_chapters_totals_witness:
  "\<not> isl (store_chapters (\<lambda>r. True) True 0 1 sample_chapters [book_in_progress 1])
   \<and> map (\<lambda>r. (word_count r, reading_time_minutes r)) (fst stored_sample) = [(51, 1)]
   \<and> map (\<lambda>b. (bk_total_word_count b, bk_estimated_total_reading_time b)) (fst (snd stored_sample))
       = [(Some 51, Some 1)]"
proof -
  have e: "\<not> isl (store_chapters (\<lambda>r. True) True 0 1 sample_chapters [book_in_progress 1])
   \<and> map (\<lambda>r. (word_count r, reading_time_minutes r)) (fst stored_sample) = [(51, 1)]
   \<and> map (\<lambda>b. (bk_total_word_count b, bk_estimated_total_reading_time b)) (fst (snd stored_sample))
       = [(Some 51, Some 1)]"
    by code_simp
  then have h: "store_chapters (\<lambda>r. True) True 0 1 sample_chapters [book_in_progress 1] = Inr stored_sample"
    by (simp add: stored_sample_def)
  from store_chapters_totals [OF h] e show ?thesis by simp
qed

end
